theory Spec2Isabelle
  imports Complex_Main "HOL-Library.Multiset" "HOL-Library.AList"
begin

section \<open>Python values and string operations\<close>

text \<open>
  Python exceptions that the modelled code can raise are values of \<open>error\<close>; a function
  that can raise returns \<open>error + 'a\<close> with \<open>Inl\<close> for the exception.
\<close>

datatype error = ValueError | IndexError | OverflowError

text \<open>
  The result of Python's \<open>float(s)\<close> on a string: a finite number (taken as a real, so
  binary rounding is not represented), an infinity or a NaN. Which strings \<open>float\<close>
  accepts is not fixed here: the functions that parse take \<open>float\<close> as a parameter
  \<open>string \<Rightarrow> pyfloat option\<close>, with \<open>None\<close> for \<open>ValueError\<close>.
\<close>

datatype pyfloat = Finite real | PosInf | NegInf | NaN

text \<open>
  \<open>int(x)\<close> on a float truncates towards zero, raises \<open>OverflowError\<close> on an infinity
  and \<open>ValueError\<close> on a NaN.
\<close>

fun py_int :: "pyfloat \<Rightarrow> error + int" where
  "py_int (Finite r) = Inr (if 0 \<le> r then \<lfloor>r\<rfloor> else \<lceil>r\<rceil>)"
| "py_int PosInf = Inl OverflowError"
| "py_int NegInf = Inl OverflowError"
| "py_int NaN = Inl ValueError"

text \<open>
  \<open>x or y\<close> on optional strings: \<open>x\<close> when it is neither \<open>None\<close> nor empty.
\<close>

definition truthy :: "string option \<Rightarrow> bool" where
  "truthy x = (case x of None \<Rightarrow> False | Some s \<Rightarrow> s \<noteq> [])"

definition py_or :: "string option \<Rightarrow> string option \<Rightarrow> string option" where
  "py_or x y = (if truthy x then x else y)"

text \<open>
  \<open>str.lower\<close>, \<open>str.startswith\<close> and the substring test \<open>a in b\<close>, on strings of
  ASCII characters.
\<close>

definition lower_char :: "char \<Rightarrow> char" where
  "lower_char c =
     (case map_of (zip ''ABCDEFGHIJKLMNOPQRSTUVWXYZ'' ''abcdefghijklmnopqrstuvwxyz'') c of
        Some l \<Rightarrow> l
      | None \<Rightarrow> c)"

definition lower :: "string \<Rightarrow> string" where
  "lower s = map lower_char s"

fun startswith :: "string \<Rightarrow> string \<Rightarrow> bool" where
  "startswith s [] = True"
| "startswith [] (p # ps) = False"
| "startswith (c # s) (p # ps) = (c = p \<and> startswith s ps)"

fun contains :: "string \<Rightarrow> string \<Rightarrow> bool" where
  "contains needle [] = (needle = [])"
| "contains needle (c # s) = (startswith (c # s) needle \<or> contains needle s)"

text \<open>
  \<open>s.split(c)\<close> for a one-character separator, and \<open>s.split()\<close>, which splits at runs
  of whitespace and yields no empty word. \<open>cur\<close> is the word being read.
\<close>

fun split_from :: "char \<Rightarrow> string \<Rightarrow> string \<Rightarrow> string list" where
  "split_from c cur [] = [cur]"
| "split_from c cur (x # xs) =
     (if x = c then cur # split_from c [] xs else split_from c (cur @ [x]) xs)"

definition split_on :: "char \<Rightarrow> string \<Rightarrow> string list" where
  "split_on c s = split_from c [] s"

definition is_space :: "char \<Rightarrow> bool" where
  "is_space c =
     (c \<in> set [CHR 0x09, CHR 0x0A, CHR 0x0B, CHR 0x0C, CHR 0x0D, CHR 0x1C, CHR 0x1D,
                CHR 0x1E, CHR 0x1F, CHR 0x20])"

fun words_from :: "string \<Rightarrow> string \<Rightarrow> string list" where
  "words_from cur [] = (if cur = [] then [] else [cur])"
| "words_from cur (x # xs) =
     (if is_space x
      then (if cur = [] then words_from [] xs else cur # words_from [] xs)
      else words_from (cur @ [x]) xs)"

definition py_split :: "string \<Rightarrow> string list" where
  "py_split s = words_from [] s"

text \<open>\<open>str(n)\<close> for an integer: its decimal numeral.\<close>

fun show_nat :: "nat \<Rightarrow> string" where
  "show_nat n =
     (if n < 10 then [''0123456789'' ! n]
      else show_nat (n div 10) @ [''0123456789'' ! (n mod 10)])"

declare show_nat.simps [simp del]

definition show_int :: "int \<Rightarrow> string" where
  "show_int i = (if i < 0 then CHR ''-'' # show_nat (nat (- i)) else show_nat (nat i))"


section \<open>Backends and backend pools (proxy/backend.py)\<close>

text \<open>
  The dataclass \<open>Backend\<close>. Python's unbounded \<open>int\<close> fields are \<open>int\<close>; the \<open>float\<close>
  fields (timestamps and the latency average) are modelled over \<open>real\<close>, so rounding of
  the binary floating-point arithmetic is not represented.
\<close>

record backend =
  host :: string
  port :: int
  healthy :: bool
  last_check :: real
  request_count :: int
  error_count :: int
  avg_latency_ms :: real
  gpu_load :: int
  load_last_updated :: real
  inflight :: int
  consecutive_timeouts :: int
  partition :: string

text \<open>\<open>Backend(host=..., port=..., partition=...)\<close> with the dataclass defaults.\<close>

definition new_backend :: "string \<Rightarrow> int \<Rightarrow> string \<Rightarrow> backend" where
  "new_backend h p part =
     \<lparr> host = h, port = p, healthy = True, last_check = 0, request_count = 0,
       error_count = 0, avg_latency_ms = 0, gpu_load = 0, load_last_updated = 0,
       inflight = 0, consecutive_timeouts = 0, partition = part \<rparr>"

text \<open>\<open>Backend.record_request\<close>.\<close>

definition record_request :: "real \<Rightarrow> bool \<Rightarrow> backend \<Rightarrow> backend" where
  "record_request latency_ms success b =
     (let b1 = b\<lparr>request_count := request_count b + 1\<rparr>
      in if success
         then b1\<lparr>avg_latency_ms := 0.2 * latency_ms + (1 - 0.2) * avg_latency_ms b1\<rparr>
         else b1\<lparr>error_count := error_count b1 + 1\<rparr>)"

text \<open>
  The dataclass \<open>BackendPool\<close>; \<open>pool_index\<close> is the field \<open>_index\<close>. The lock is not
  part of the state: every operation below is one critical section.
\<close>

record backend_pool =
  pool_model :: string
  backends :: "backend list"
  pool_index :: int

definition new_pool :: "string \<Rightarrow> backend_pool" where
  "new_pool m = \<lparr> pool_model = m, backends = [], pool_index = 0 \<rparr>"

text \<open>
  \<open>BackendPool.add_backend\<close>: the loop returns at the first backend with the same host
  and port, after marking it healthy and, when the partition string is non-empty,
  overwriting its partition; otherwise a new backend is appended.
\<close>

fun add_existing :: "string \<Rightarrow> int \<Rightarrow> string \<Rightarrow> backend list \<Rightarrow> backend list option" where
  "add_existing h p part [] = None"
| "add_existing h p part (b # bs) =
     (if host b = h \<and> port b = p
      then Some ((if part \<noteq> [] then b\<lparr>healthy := True, partition := part\<rparr>
                  else b\<lparr>healthy := True\<rparr>) # bs)
      else map_option ((#) b) (add_existing h p part bs))"

definition pool_add_backend :: "string \<Rightarrow> int \<Rightarrow> string \<Rightarrow> backend_pool \<Rightarrow> backend_pool" where
  "pool_add_backend h p part pool =
     (case add_existing h p part (backends pool) of
        Some bs \<Rightarrow> pool\<lparr>backends := bs\<rparr>
      | None \<Rightarrow> pool\<lparr>backends := backends pool @ [new_backend h p part]\<rparr>)"



section \<open>Strategy selection (proxy/strategies.py)\<close>

text \<open>
  \<open>[i for i, b in enumerate(xs) if P(b)]\<close>: the positions of the elements that satisfy
  \<open>P\<close>. The source's comprehensions collect the backend objects themselves; an object is
  identified here by its position in the list it is taken from.
\<close>

definition positions :: "('a \<Rightarrow> bool) \<Rightarrow> 'a list \<Rightarrow> nat list" where
  "positions P xs = filter (\<lambda>i. P (xs ! i)) [0..<length xs]"

text \<open>
  \<open>select_backend\<close>. The result is the position, in the argument list, of the backend
  object that the source returns, together with the new index. Python's \<open>%\<close> with a
  positive right operand is \<open>mod\<close> on \<open>int\<close>.
\<close>

definition select_backend :: "backend list \<Rightarrow> string \<Rightarrow> int \<Rightarrow> error + (nat \<times> int)" where
  "select_backend bs strategy current_index =
     (if bs = [] then Inl ValueError
      else if strategy = ''round_robin'' then
        Inr (nat (current_index mod int (length bs)), current_index + 1)
      else if strategy = ''least_connections'' then
        (let min_inflight = min_list (map inflight bs);
             tied = positions (\<lambda>b. inflight b = min_inflight) bs
         in Inr (tied ! nat (current_index mod int (length tied)), current_index + 1))
      else if strategy = ''least_latency'' then
        (let min_lat = min_list (map avg_latency_ms bs);
             tied = positions (\<lambda>b. avg_latency_ms b = min_lat) bs
         in Inr (tied ! nat (current_index mod int (length tied)), current_index + 1))
      else if strategy = ''least_load'' then
        (let min_score = min_list (map (\<lambda>b. gpu_load b + inflight b) bs);
             tied = positions (\<lambda>b. gpu_load b + inflight b = min_score) bs
         in Inr (tied ! nat (current_index mod int (length tied)), current_index + 1))
      else Inr (0, current_index))"

text \<open>
  \<open>BackendPool.get_backend\<close>. The result names the chosen backend by its position in
  \<open>pool.backends\<close> (\<open>None\<close> when no backend is healthy) and gives the pool after the
  critical section.
\<close>

definition get_backend :: "backend_pool \<Rightarrow> string \<Rightarrow> error + (nat option \<times> backend_pool)" where
  "get_backend pool strategy =
     (let healthy_pos = positions healthy (backends pool);
          healthy_backends = map (\<lambda>i. backends pool ! i) healthy_pos
      in if healthy_backends = [] then Inr (None, pool)
         else case select_backend healthy_backends strategy (pool_index pool) of
                Inl e \<Rightarrow> Inl e
              | Inr (k, idx) \<Rightarrow>
                  (let j = healthy_pos ! k;
                       b = backends pool ! j
                   in Inr (Some j,
                           pool\<lparr>backends := (backends pool)[j := b\<lparr>inflight := inflight b + 1\<rparr>],
                                pool_index := idx\<rparr>)))"

text \<open>\<open>n\<close> sequential calls of \<open>get_backend\<close> on one pool, with the results in call order.\<close>

fun acquires :: "nat \<Rightarrow> string \<Rightarrow> backend_pool \<Rightarrow> (error + nat option) list \<times> backend_pool" where
  "acquires 0 strategy pool = ([], pool)"
| "acquires (Suc n) strategy pool =
     (case get_backend pool strategy of
        Inl e \<Rightarrow> ([Inl e], pool)
      | Inr (r, pool') \<Rightarrow>
          (case acquires n strategy pool' of (rs, pool'') \<Rightarrow> (Inr r # rs, pool'')))"

text \<open>
  Scenario S1: pool \<open>m\<close> with the backends \<open>A = (127.0.0.1, 5900)\<close> and
  \<open>B = (127.0.0.1, 5910)\<close>, both freshly registered.
\<close>

definition S1_pool :: backend_pool where
  "S1_pool = pool_add_backend ''127.0.0.1'' 5910 ''''
               (pool_add_backend ''127.0.0.1'' 5900 '''' (new_pool ''m''))"

section \<open>Request tracker (proxy/tracker.py)\<close>

text \<open>
  The field \<open>status\<close> of a tracked request is a string that only ever holds one of the
  four values \<open>pending\<close>, \<open>in_flight\<close>, \<open>completed\<close> and \<open>failed\<close>.
\<close>

datatype status = Pending | InFlight | Completed | Failed

text \<open>
  The dataclass \<open>TrackedRequest\<close>; \<open>req_model\<close> and \<open>req_backend\<close> are its fields
  \<open>model\<close> and \<open>backend\<close>. Timestamps are readings of \<open>time.time()\<close>.
\<close>

record tracked_request =
  request_id :: string
  source :: string
  req_model :: string
  path :: string
  submitted_at :: real
  started_at :: "real option"
  completed_at :: "real option"
  req_backend :: "string option"
  status :: status
  session_id :: "string option"
  task_id :: "string option"
  client_id :: "string option"
  client_command :: "string option"
  request_summary :: "string option"
  response_summary :: "string option"
  backend_time_ms :: "real option"
  agent_pre_ms :: "pyfloat option"
  agent_post_ms :: "pyfloat option"
  turn_number :: "int option"

text \<open>
  The state of a \<open>RequestTracker\<close>. Both dictionaries are association lists in
  insertion order, as a Python \<open>dict\<close> keeps them: assigning to an existing key
  replaces the value in place (\<open>AList.update\<close>), \<open>del\<close> removes the entry
  (\<open>AList.delete\<close>). \<open>session_turn_counters\<close> is the field \<open>_session_turn_counters\<close>.
\<close>

record tracker =
  requests :: "(string \<times> tracked_request) list"
  max_history :: int
  cleanup_interval :: real
  stale_timeout :: real
  session_turn_counters :: "(string \<times> int) list"

definition new_tracker :: "int \<Rightarrow> real \<Rightarrow> real \<Rightarrow> tracker" where
  "new_tracker mh ci st =
     \<lparr> requests = [], max_history = mh, cleanup_interval = ci, stale_timeout = st,
       session_turn_counters = [] \<rparr>"

text \<open>
  \<open>RequestTracker.submit\<close>, at clock reading \<open>now\<close>. \<open>if session_id:\<close> holds for a
  session id that is neither \<open>None\<close> nor the empty string. The created request is
  returned together with the new state.
\<close>

definition submit ::
  "real \<Rightarrow> string \<Rightarrow> string \<Rightarrow> string \<Rightarrow> string \<Rightarrow> string option \<Rightarrow> string option \<Rightarrow>
   string option \<Rightarrow> string option \<Rightarrow> tracker \<Rightarrow> tracked_request \<times> tracker" where
  "submit now rid src mdl pth sid tid cid ccmd t =
     (let counters = session_turn_counters t;
          tc = (case sid of
                  None \<Rightarrow> (None, counters)
                | Some s \<Rightarrow>
                    if s \<noteq> [] then
                      (let counter = (case map_of counters s of Some c \<Rightarrow> c | None \<Rightarrow> 0) + 1
                       in (Some counter, AList.update s counter counters))
                    else (None, counters));
          req = \<lparr> request_id = rid, source = src, req_model = mdl, path = pth,
                  submitted_at = now, started_at = None, completed_at = None,
                  req_backend = None, status = Pending, session_id = sid, task_id = tid,
                  client_id = cid, client_command = ccmd, request_summary = None,
                  response_summary = None, backend_time_ms = None, agent_pre_ms = None,
                  agent_post_ms = None, turn_number = fst tc \<rparr>
      in (req, t\<lparr>requests := AList.update rid req (requests t),
                 session_turn_counters := snd tc\<rparr>))"

text \<open>\<open>RequestTracker.start_processing\<close> and \<open>RequestTracker.complete\<close>.\<close>

definition start_processing :: "real \<Rightarrow> string \<Rightarrow> string \<Rightarrow> tracker \<Rightarrow> tracker" where
  "start_processing now rid b t =
     (case map_of (requests t) rid of
        None \<Rightarrow> t
      | Some req \<Rightarrow>
          t\<lparr>requests := AList.update rid
               (req\<lparr>started_at := Some now, req_backend := Some b, status := InFlight\<rparr>)
               (requests t)\<rparr>)"

definition complete :: "real \<Rightarrow> string \<Rightarrow> bool \<Rightarrow> tracker \<Rightarrow> tracker" where
  "complete now rid success t =
     (case map_of (requests t) rid of
        None \<Rightarrow> t
      | Some req \<Rightarrow>
          t\<lparr>requests := AList.update rid
               (req\<lparr>completed_at := Some now,
                    status := (if success then Completed else Failed)\<rparr>)
               (requests t)\<rparr>)"

text \<open>
  The proxy writes the optional fields of a tracked request directly, each time under
  the guard \<open>if request_id in self.tracker.requests\<close>.
\<close>

datatype annotation =
  RequestSummary string | ResponseSummary string | BackendTime real | AgentPre pyfloat
| AgentPost pyfloat

fun set_annotation :: "annotation \<Rightarrow> tracked_request \<Rightarrow> tracked_request" where
  "set_annotation (RequestSummary s) req = req\<lparr>request_summary := Some s\<rparr>"
| "set_annotation (ResponseSummary s) req = req\<lparr>response_summary := Some s\<rparr>"
| "set_annotation (BackendTime x) req = req\<lparr>backend_time_ms := Some x\<rparr>"
| "set_annotation (AgentPre x) req = req\<lparr>agent_pre_ms := Some x\<rparr>"
| "set_annotation (AgentPost x) req = req\<lparr>agent_post_ms := Some x\<rparr>"

definition annotate :: "string \<Rightarrow> annotation \<Rightarrow> tracker \<Rightarrow> tracker" where
  "annotate rid a t =
     (case map_of (requests t) rid of
        None \<Rightarrow> t
      | Some req \<Rightarrow> t\<lparr>requests := AList.update rid (set_annotation a req) (requests t)\<rparr>)"

text \<open>
  \<open>RequestTracker._cleanup_old_requests\<close>, at clock reading \<open>now\<close>.
  \<open>to_expire\<close> is the condition of the \<open>if\<close>/\<open>elif\<close> in the first loop; there
  \<open>req.completed_at and ...\<close> holds only for a timestamp that is neither \<open>None\<close>
  nor \<open>0.0\<close>. \<open>completed_key\<close> is the sort key \<open>completed_at or 0\<close>. Python's
  \<open>list.sort\<close> is stable, as \<open>sort_key\<close> is.
\<close>

definition to_expire :: "real \<Rightarrow> real \<Rightarrow> tracked_request \<Rightarrow> bool" where
  "to_expire cutoff stale_cutoff req =
     (if (status req = Completed \<or> status req = Failed)
          \<and> (case completed_at req of None \<Rightarrow> False | Some c \<Rightarrow> c \<noteq> 0 \<and> c < cutoff)
      then True
      else if (status req = Pending \<or> status req = InFlight) \<and> submitted_at req < stale_cutoff
      then True
      else False)"

definition completed_key :: "string \<times> tracked_request \<Rightarrow> real" where
  "completed_key x = (case completed_at (snd x) of None \<Rightarrow> 0 | Some c \<Rightarrow> c)"

definition is_done :: "string \<times> tracked_request \<Rightarrow> bool" where
  "is_done x = (status (snd x) = Completed \<or> status (snd x) = Failed)"

definition cleanup_old_requests :: "real \<Rightarrow> tracker \<Rightarrow> tracker" where
  "cleanup_old_requests now t =
     (let cutoff = now - cleanup_interval t;
          stale_cutoff = now - stale_timeout t;
          to_remove = map fst (filter (\<lambda>x. to_expire cutoff stale_cutoff (snd x)) (requests t));
          reqs1 = fold AList.delete to_remove (requests t)
      in if int (length reqs1) > max_history t then
           (let completed = sort_key completed_key (filter is_done reqs1);
                excess = int (length reqs1) - max_history t;
                victims = map fst (take (nat excess) completed)
            in t\<lparr>requests := fold AList.delete victims reqs1\<rparr>)
         else t\<lparr>requests := reqs1\<rparr>)"

text \<open>
  A history of tracker operations. \<open>tracker_step\<close> performs one operation and returns
  the requests it created (one for a submit, none otherwise); \<open>run_from\<close> performs a
  sequence from left to right, appending every created request to those created so far,
  and \<open>run_ops\<close> starts it with none created.
\<close>

datatype tracker_op =
  Submit real string string string string "string option" "string option" "string option"
    "string option"
| StartProcessing real string string
| Complete real string bool
| Annotate string annotation
| Cleanup real

fun tracker_step :: "tracker_op \<Rightarrow> tracker \<Rightarrow> tracked_request list \<times> tracker" where
  "tracker_step (Submit now rid src mdl pth sid tid cid ccmd) t =
     (case submit now rid src mdl pth sid tid cid ccmd t of (req, t') \<Rightarrow> ([req], t'))"
| "tracker_step (StartProcessing now rid b) t = ([], start_processing now rid b t)"
| "tracker_step (Complete now rid success) t = ([], complete now rid success t)"
| "tracker_step (Annotate rid a) t = ([], annotate rid a t)"
| "tracker_step (Cleanup now) t = ([], cleanup_old_requests now t)"

fun run_from ::
  "tracked_request list \<Rightarrow> tracker_op list \<Rightarrow> tracker \<Rightarrow> tracked_request list \<times> tracker" where
  "run_from created [] t = (created, t)"
| "run_from created (x # xs) t =
     run_from (created @ fst (tracker_step x t)) xs (snd (tracker_step x t))"

definition run_ops :: "tracker_op list \<Rightarrow> tracker \<Rightarrow> tracked_request list \<times> tracker" where
  "run_ops ops t = run_from [] ops t"

text \<open>The turn numbers issued to session \<open>s\<close> among a list of created requests.\<close>

definition issued_turns :: "string \<Rightarrow> tracked_request list \<Rightarrow> int list" where
  "issued_turns s created =
     List.map_filter (\<lambda>r. if session_id r = Some s then turn_number r else None) created"

text \<open>\<open>self._session_turn_counters.get(s, 0)\<close>.\<close>

definition turn_counter :: "tracker \<Rightarrow> string \<Rightarrow> int" where
  "turn_counter t s = (case map_of (session_turn_counters t) s of Some c \<Rightarrow> c | None \<Rightarrow> 0)"

text \<open>
  The three groups of the eviction policy, in the words of the specification: a request
  is \<open>old_completed\<close> when it is completed or failed and its completed-at is older than
  \<open>now - cleanup_interval\<close>, \<open>stale_pending\<close> when it is pending or in flight and its
  submitted-at is older than \<open>now - stale_timeout\<close>; \<open>after_expiry\<close> is the store
  without both groups, in the order of the store.
\<close>

definition old_completed :: "real \<Rightarrow> tracker \<Rightarrow> string \<times> tracked_request \<Rightarrow> bool" where
  "old_completed now t x =
     (is_done x \<and> (case completed_at (snd x) of
                     None \<Rightarrow> False
                   | Some c \<Rightarrow> c < now - cleanup_interval t))"

definition stale_pending :: "real \<Rightarrow> tracker \<Rightarrow> string \<times> tracked_request \<Rightarrow> bool" where
  "stale_pending now t x =
     ((status (snd x) = Pending \<or> status (snd x) = InFlight)
      \<and> submitted_at (snd x) < now - stale_timeout t)"

definition after_expiry :: "real \<Rightarrow> tracker \<Rightarrow> (string \<times> tracked_request) list" where
  "after_expiry now t =
     filter (\<lambda>x. \<not> old_completed now t x \<and> \<not> stale_pending now t x) (requests t)"

section \<open>Load-balancing proxy (proxy/server.py)\<close>

subsection \<open>What one proxied request does to its backend\<close>

text \<open>\<open>Backend.url\<close>.\<close>

definition url :: "backend \<Rightarrow> string" where
  "url b = ''http://'' @ host b @ '':'' @ show_int (port b)"

text \<open>
  The statements of \<open>_proxy_request\<close> that write the chosen backend: after a response
  (\<open>record_request\<close> and the reset of \<open>consecutive_timeouts\<close>), in the handler of
  \<open>asyncio.TimeoutError\<close>, in the handler of \<open>ClientError\<close>, and in the \<open>finally\<close>
  clause.
\<close>

definition on_response :: "real \<Rightarrow> int \<Rightarrow> backend \<Rightarrow> backend" where
  "on_response latency_ms status_code b =
     (record_request latency_ms (status_code < 500) b)\<lparr>consecutive_timeouts := 0\<rparr>"

definition on_timeout :: "real \<Rightarrow> backend \<Rightarrow> backend" where
  "on_timeout latency_ms b =
     (let b1 = record_request latency_ms False b;
          b2 = b1\<lparr>consecutive_timeouts := consecutive_timeouts b1 + 1\<rparr>
      in if 3 \<le> consecutive_timeouts b2 then b2\<lparr>healthy := False\<rparr> else b2)"

definition on_client_error :: "real \<Rightarrow> backend \<Rightarrow> backend" where
  "on_client_error latency_ms b = (record_request latency_ms False b)\<lparr>healthy := False\<rparr>"

definition release :: "backend \<Rightarrow> backend" where
  "release b = b\<lparr>inflight := max 0 (inflight b - 1)\<rparr>"

subsection \<open>The environment of the proxy\<close>

text \<open>
  What the proxy reads from outside is an input of the model. A model listing is the
  list under \<open>data\<close> of a backend's \<open>/v1/models\<close> answer, each entry a dictionary of
  strings; \<open>NoReply\<close> stands for a request, or a decoding of the answer, that raised.
  The inspection of a JSON body (the last user message of a request, the assistant
  content of a response) is not modelled in itself: its outcome is the text found
  (empty when there is none), \<open>Skipped\<close> when it raised one of the exceptions the
  code catches, and \<open>Raised\<close> when it raised another one. The forwarded call either
  gets an answer with a status code, times out, fails with a \<open>ClientError\<close> carrying
  a message, or raises something else.
\<close>

type_synonym model_entry = "(string \<times> string) list"

datatype models_reply = NoReply | Reply int "model_entry list"

datatype inspect = Inspected string | Skipped | Raised

datatype upstream = Responded int inspect | TimedOut | ClientFailed string | Crashed

record env =
  py_float :: "string \<Rightarrow> pyfloat option"
  models_reply :: "string \<Rightarrow> models_reply"
  health_reply :: "string \<Rightarrow> int option"
  metrics_reply :: "string \<Rightarrow> (int \<times> string) option"

text \<open>
  An incoming request: its generated id (\<open>uuid4().hex[:16]\<close>), the parts of the
  aiohttp request that are read, the outcomes of inspecting its body and of its
  forwarded call, and the readings of \<open>time.time()\<close> at the places that take one
  (the three tracker calls, the model discovery, \<open>start_time\<close>, \<open>backend_start\<close>, and
  the two readings after the answer or the exception).
\<close>

record http_request =
  rq_id :: string
  rq_remote :: "string option"
  rq_headers :: "(string \<times> string) list"
  rq_query_model :: "string option"
  rq_body_model :: "string option"
  rq_body_inspect :: inspect
  rq_upstream :: upstream
  t_submit :: real
  t_fetch :: real
  t_start :: real
  t_begin :: real
  t_backend_start :: real
  t_backend_end :: real
  t_end :: real
  t_complete :: real

text \<open>\<open>request.headers.get(name)\<close>: header names are matched without regard to case.\<close>

definition header_get :: "(string \<times> string) list \<Rightarrow> string \<Rightarrow> string option" where
  "header_get hs name = map_of (map (\<lambda>kv. (lower (fst kv), snd kv)) hs) (lower name)"

text \<open>\<open>HeadersConfig\<close> (config/schema.py) with its defaults.\<close>

record headers_config =
  h_session :: string
  h_task :: string
  h_client :: string
  h_timing_pre :: string
  h_timing_post :: string





subsection \<open>The proxy state\<close>

text \<open>
  The fields of \<open>LoadBalancingProxy\<close> that the modelled operations read or write. Both
  dictionaries are association lists in insertion order. \<open>proxy_strategy\<close> and
  \<open>proxy_headers\<close> are the fields \<open>strategy\<close> and \<open>headers\<close>, \<open>cached_models\<close>,
  \<open>models_cache_time\<close> and \<open>models_cache_ttl\<close> the fields of these names with a
  leading underscore.
\<close>

record proxy =
  pools :: "(string \<times> backend_pool) list"
  model_to_pool :: "(string \<times> string) list"
  cached_models :: "model_entry list"
  models_cache_time :: real
  models_cache_ttl :: real
  proxy_strategy :: string
  proxy_headers :: headers_config
  total_requests :: int
  total_errors :: int
  tracker :: tracker




text \<open>
  The backend object that \<open>get_backend\<close> returned is the backend at position \<open>j\<close> of
  pool \<open>pn\<close>; \<open>map_backend\<close> writes it.
\<close>

definition map_backend :: "string \<Rightarrow> nat \<Rightarrow> (backend \<Rightarrow> backend) \<Rightarrow> proxy \<Rightarrow> proxy" where
  "map_backend pn j f px =
     (case map_of (pools px) pn of
        None \<Rightarrow> px
      | Some pool \<Rightarrow>
          if j < length (backends pool)
          then px\<lparr>pools := AList.update pn
                    (pool\<lparr>backends := (backends pool)[j := f (backends pool ! j)]\<rparr>) (pools px)\<rparr>
          else px)"

subsection \<open>Model discovery\<close>

text \<open>
  \<open>_fetch_backend_models\<close>. \<open>discovery\<close> holds the model-to-pool map and the locals
  \<open>seen_models\<close> and \<open>all_models\<close> while the loops run. \<open>learn_models\<close> is the loop over
  the entries of one answer, \<open>fetch_pool\<close> the loop over the backends of one pool (it
  ends at the first healthy backend that answers with status 200), \<open>fetch_pools\<close> the
  loop over the pools.
\<close>

record discovery =
  d_map :: "(string \<times> string) list"
  d_seen :: "string list"
  d_all :: "model_entry list"

fun learn_models :: "string \<Rightarrow> model_entry list \<Rightarrow> discovery \<Rightarrow> discovery" where
  "learn_models pn [] d = d"
| "learn_models pn (e # es) d =
     (case map_of e ''id'' of
        None \<Rightarrow> learn_models pn es d
      | Some model_id \<Rightarrow>
          if model_id = [] then learn_models pn es d
          else learn_models pn es
                 (if model_id \<in> set (d_seen d)
                  then d\<lparr>d_map := AList.update model_id pn (d_map d)\<rparr>
                  else d\<lparr>d_map := AList.update model_id pn (d_map d),
                         d_seen := d_seen d @ [model_id], d_all := d_all d @ [e]\<rparr>))"

fun fetch_pool :: "env \<Rightarrow> string \<Rightarrow> backend list \<Rightarrow> discovery \<Rightarrow> discovery" where
  "fetch_pool ev pn [] d = d"
| "fetch_pool ev pn (b # bs) d =
     (if \<not> healthy b then fetch_pool ev pn bs d
      else (case models_reply ev (url b) of
              NoReply \<Rightarrow> fetch_pool ev pn bs d
            | Reply code entries \<Rightarrow>
                if code = 200 then learn_models pn entries d else fetch_pool ev pn bs d))"

fun fetch_pools :: "env \<Rightarrow> (string \<times> backend_pool) list \<Rightarrow> discovery \<Rightarrow> discovery" where
  "fetch_pools ev [] d = d"
| "fetch_pools ev (np # ps) d = fetch_pools ev ps (fetch_pool ev (fst np) (backends (snd np)) d)"

definition fetch_backend_models :: "env \<Rightarrow> bool \<Rightarrow> real \<Rightarrow> proxy \<Rightarrow> model_entry list \<times> proxy" where
  "fetch_backend_models ev force now px =
     (if \<not> force \<and> cached_models px \<noteq> [] \<and> now - models_cache_time px < models_cache_ttl px
      then (cached_models px, px)
      else (let d = fetch_pools ev (pools px)
                      \<lparr> d_map = model_to_pool px, d_seen = [], d_all = [] \<rparr>
            in (d_all d,
                px\<lparr>model_to_pool := d_map d, cached_models := d_all d,
                   models_cache_time := now\<rparr>)))"

subsection \<open>Resolving the pool of a request\<close>

text \<open>
  Lines 320 to 340 of \<open>_proxy_request\<close>. The pool object found is named by its key in
  \<open>pools\<close>. \<open>pool_named\<close> is \<open>self.pools.get(name)\<close>; \<open>pool_via_map\<close> is the lookup
  through \<open>model_to_pool\<close> under \<open>if pool_name:\<close>; \<open>partial_match\<close> is the loop of the
  case-insensitive partial match, which stops at the first pool that matches.
\<close>

definition pool_named :: "proxy \<Rightarrow> string \<Rightarrow> string option" where
  "pool_named px name = (case map_of (pools px) name of None \<Rightarrow> None | Some pool \<Rightarrow> Some name)"

definition pool_via_map :: "proxy \<Rightarrow> string \<Rightarrow> string option" where
  "pool_via_map px m =
     (case map_of (model_to_pool px) m of
        None \<Rightarrow> None
      | Some pool_name \<Rightarrow> if pool_name = [] then None else pool_named px pool_name)"

definition partial_match :: "proxy \<Rightarrow> string \<Rightarrow> string option" where
  "partial_match px model_lower =
     find (\<lambda>name. model_lower \<noteq> []
                    \<and> (contains model_lower (lower name) \<or> contains (lower name) model_lower))
          (map fst (pools px))"

definition resolve_pool :: "env \<Rightarrow> real \<Rightarrow> string option \<Rightarrow> proxy \<Rightarrow> string option \<times> proxy" where
  "resolve_pool ev now model px =
     (let pool1 = (case model of None \<Rightarrow> None | Some m \<Rightarrow> pool_named px m);
          pool2 = (if pool1 = None
                   then (case model of None \<Rightarrow> None | Some m \<Rightarrow> pool_via_map px m)
                   else pool1)
      in if pool2 \<noteq> None then (pool2, px)
         else (let px' = snd (fetch_backend_models ev True now px);
                   pool3 = (case model of None \<Rightarrow> None | Some m \<Rightarrow> pool_via_map px' m)
               in if pool3 \<noteq> None then (pool3, px')
                  else (partial_match px' (case model of None \<Rightarrow> [] | Some m \<Rightarrow> lower m),
                        px')))"

subsection \<open>Proxying a request\<close>

text \<open>
  Lines 373 to 411: the request summary and the agent timing headers. A timing header
  that is present and not empty is parsed by \<open>float\<close>; a \<open>ValueError\<close> is passed over.
\<close>

definition annotate_summary :: "http_request \<Rightarrow> proxy \<Rightarrow> proxy" where
  "annotate_summary rq px =
     (case rq_body_inspect rq of
        Inspected msg \<Rightarrow>
          if msg \<noteq> []
          then px\<lparr>tracker := annotate (rq_id rq) (RequestSummary (take 200 msg)) (tracker px)\<rparr>
          else px
      | _ \<Rightarrow> px)"

definition float_header :: "env \<Rightarrow> string option \<Rightarrow> pyfloat option" where
  "float_header ev x =
     (case x of None \<Rightarrow> None | Some s \<Rightarrow> if s = [] then None else py_float ev s)"

definition annotate_timing :: "env \<Rightarrow> http_request \<Rightarrow> proxy \<Rightarrow> proxy" where
  "annotate_timing ev rq px =
     (let hs = rq_headers rq;
          timing_pre = py_or (header_get hs (h_timing_pre (proxy_headers px)))
                             (header_get hs ''X-Timing-Obs-Ms'');
          timing_post = py_or (header_get hs (h_timing_post (proxy_headers px)))
                              (header_get hs ''X-Timing-Act-Ms'');
          tr1 = (case float_header ev timing_pre of
                   None \<Rightarrow> tracker px
                 | Some v \<Rightarrow> annotate (rq_id rq) (AgentPre v) (tracker px));
          tr2 = (case float_header ev timing_post of
                   None \<Rightarrow> tr1
                 | Some v \<Rightarrow> annotate (rq_id rq) (AgentPost v) tr1)
      in px\<lparr>tracker := tr2\<rparr>)"


text \<open>
  \<open>_proxy_request\<close>, in its three parts. \<open>submitted\<close> is the head of the function
  (lines 297 to 318): the request counter and the registration in the tracker.
  \<open>resolve_pool\<close> then finds the pool, and \<open>serve\<close> is the rest (lines 342 to 493), for
  the pool name found and the state after the resolution. \<open>model\<close> is \<open>None\<close> or a
  string, as the handlers pass it. The \<open>finally\<close> clause is the \<open>release\<close> of the
  chosen backend after \<open>dispatch\<close>, whatever \<open>dispatch\<close> returned. \<open>get_backend\<close> is
  called before the \<open>try\<close>: if it raised, the exception would leave the function with
  no backend chosen.
\<close>

definition or_unknown :: "string option \<Rightarrow> string" where
  "or_unknown x = (case x of None \<Rightarrow> ''unknown'' | Some s \<Rightarrow> if s = [] then ''unknown'' else s)"



definition fail_request :: "http_request \<Rightarrow> proxy \<Rightarrow> proxy" where
  "fail_request rq px =
     px\<lparr>total_errors := total_errors px + 1,
        tracker := complete (t_complete rq) (rq_id rq) False (tracker px)\<rparr>"

definition submitted :: "http_request \<Rightarrow> string option \<Rightarrow> string \<Rightarrow> proxy \<Rightarrow> proxy" where
  "submitted rq model pth px =
     (let px1 = px\<lparr>total_requests := total_requests px + 1\<rparr>;
          hs = rq_headers rq;
          hc = proxy_headers px1;
          sid = py_or (header_get hs (h_session hc)) (header_get hs ''X-Episode-ID'');
          tid = py_or (header_get hs (h_task hc)) (header_get hs ''X-Instruction-ID'');
          cid = py_or (header_get hs (h_client hc)) (header_get hs ''X-Process-ID'');
          ccmd = header_get hs ''X-Process-Command''
      in px1\<lparr>tracker :=
               snd (submit (t_submit rq) (rq_id rq) (or_unknown (rq_remote rq))
                      (or_unknown model) pth sid tid cid ccmd (tracker px1))\<rparr>)"





subsection \<open>Health checks and load refresh\<close>

text \<open>
  \<open>parse_vllm_metrics\<close>, with \<open>float\<close> as the parameter \<open>pf\<close>. The dictionary it returns
  has at most the keys \<open>running\<close> and \<open>waiting\<close> and is the pair of their optional
  values. \<open>metric_value\<close> is \<open>int(float(line.split()[-1]))\<close>; its \<open>ValueError\<close> and
  \<open>IndexError\<close> are passed over, another exception leaves the function.
\<close>

definition metric_value :: "(string \<Rightarrow> pyfloat option) \<Rightarrow> string \<Rightarrow> error + int" where
  "metric_value pf line =
     (case py_split line of
        [] \<Rightarrow> Inl IndexError
      | w # ws \<Rightarrow> (case pf (last (w # ws)) of None \<Rightarrow> Inl ValueError | Some x \<Rightarrow> py_int x))"

fun parse_lines ::
  "(string \<Rightarrow> pyfloat option) \<Rightarrow> string list \<Rightarrow> int option \<times> int option \<Rightarrow>
   error + (int option \<times> int option)" where
  "parse_lines pf [] m = Inr m"
| "parse_lines pf (line # ls) m =
     (if startswith line ''vllm:num_requests_running'' then
        (case metric_value pf line of
           Inr v \<Rightarrow> parse_lines pf ls (Some v, snd m)
         | Inl e \<Rightarrow> if e = ValueError \<or> e = IndexError then parse_lines pf ls m else Inl e)
      else if startswith line ''vllm:num_requests_waiting'' then
        (case metric_value pf line of
           Inr v \<Rightarrow> parse_lines pf ls (fst m, Some v)
         | Inl e \<Rightarrow> if e = ValueError \<or> e = IndexError then parse_lines pf ls m else Inl e)
      else parse_lines pf ls m)"

definition parse_vllm_metrics ::
  "(string \<Rightarrow> pyfloat option) \<Rightarrow> string \<Rightarrow> error + (int option \<times> int option)" where
  "parse_vllm_metrics pf text = parse_lines pf (split_on (CHR 0x0A) text) (None, None)"

text \<open>
  \<open>_refresh_backend_load\<close> at clock reading \<open>now\<close>. \<open>metrics_reply\<close> gives the status
  and the text of the \<open>/metrics\<close> answer, or \<open>None\<close> when the request raised. Any
  exception inside the \<open>try\<close> is swallowed. \<open>metrics.get(key, 0)\<close> is \<open>get_or_0\<close>.
\<close>

definition LOAD_CACHE_TTL :: real where
  "LOAD_CACHE_TTL = 1"

definition get_or_0 :: "int option \<Rightarrow> int" where
  "get_or_0 x = (case x of None \<Rightarrow> 0 | Some v \<Rightarrow> v)"

definition refresh_backend_load :: "env \<Rightarrow> real \<Rightarrow> backend \<Rightarrow> backend" where
  "refresh_backend_load ev now b =
     (if now - load_last_updated b < LOAD_CACHE_TTL then b
      else (case metrics_reply ev (url b) of
              None \<Rightarrow> b
            | Some reply \<Rightarrow>
                if fst reply = 200 then
                  (case parse_vllm_metrics (py_float ev) (snd reply) of
                     Inl e \<Rightarrow> b
                   | Inr metrics \<Rightarrow>
                       b\<lparr>gpu_load := get_or_0 (fst metrics) + get_or_0 (snd metrics),
                         load_last_updated := now\<rparr>)
                else b))"

text \<open>
  \<open>_check_single_backend\<close> (clock readings \<open>now\<close> for \<open>last_check\<close> and \<open>now'\<close> for the
  load refresh), \<open>_check_all_backends\<close> and one round of \<open>_gpu_load_refresh_loop\<close>.
\<close>

definition check_single_backend :: "env \<Rightarrow> real \<Rightarrow> real \<Rightarrow> backend \<Rightarrow> backend" where
  "check_single_backend ev now now' b =
     (case health_reply ev (url b) of
        None \<Rightarrow> b\<lparr>healthy := False, last_check := now\<rparr>
      | Some code \<Rightarrow>
          (let b1 = b\<lparr>healthy := (code < 500), last_check := now\<rparr>
           in if healthy b1 then refresh_backend_load ev now' b1 else b1))"




subsection \<open>Histories of the proxy\<close>




section \<open>Histories of a backend and of a pool\<close>

text \<open>
  What the \<open>try\<close> statement of \<open>_proxy_request\<close> does to the chosen backend, by the
  outcome of the request: nothing when the inspection of the request body or the
  forwarded call raises an exception that no handler catches, else the writes after a
  response, in the timeout handler or in the \<open>ClientError\<close> handler. The \<open>finally\<close>
  clause then releases the backend: \<open>finish_backend\<close>.
\<close>

definition backend_effect :: "http_request \<Rightarrow> backend \<Rightarrow> backend" where
  "backend_effect rq b =
     (if rq_body_inspect rq = Raised then b
      else (case rq_upstream rq of
              Responded code answer \<Rightarrow> on_response ((t_end rq - t_begin rq) * 1000) code b
            | TimedOut \<Rightarrow> on_timeout ((t_end rq - t_begin rq) * 1000) b
            | ClientFailed msg \<Rightarrow> on_client_error ((t_end rq - t_begin rq) * 1000) b
            | Crashed \<Rightarrow> b))"

definition finish_backend :: "http_request \<Rightarrow> backend \<Rightarrow> backend" where
  "finish_backend rq b = release (backend_effect rq b)"

definition timed_out :: "http_request \<Rightarrow> bool" where
  "timed_out rq = (rq_body_inspect rq \<noteq> Raised \<and> rq_upstream rq = TimedOut)"

text \<open>
  The history of one backend: it is acquired by \<open>get_backend\<close>, a request that had
  acquired it finishes, a health probe checks it, or its load is refreshed. The calls
  that judge its health are the forwarded requests and the health probes;
  \<open>call_timed_out\<close> holds of a forwarded request that timed out and of a probe that
  raised (its timeout included), and of every event that is no such call.
  Registering the backend again, which marks it healthy, is no event of a history.
\<close>

datatype backend_event =
  Acquired | Finished http_request | Probed env real real | LoadRefreshed env real

fun backend_step :: "backend_event \<Rightarrow> backend \<Rightarrow> backend" where
  "backend_step Acquired b = b\<lparr>inflight := inflight b + 1\<rparr>"
| "backend_step (Finished rq) b = finish_backend rq b"
| "backend_step (Probed ev now now') b = check_single_backend ev now now' b"
| "backend_step (LoadRefreshed ev now) b = refresh_backend_load ev now b"

fun backend_run :: "backend_event list \<Rightarrow> backend \<Rightarrow> backend" where
  "backend_run [] b = b"
| "backend_run (e # es) b = backend_run es (backend_step e b)"










text \<open>
  The readings of a metrics text, in the words of the specification: the values
  \<open>int(float(w))\<close>, for the last word \<open>w\<close> of a line, of the lines that start with
  \<open>vllm:num_requests_running\<close>, and of the lines that start with
  \<open>vllm:num_requests_waiting\<close> (and not with the former), in the order of the text,
  without the lines that have no word or whose last word is no number. \<open>last_or_0\<close> is
  the last reading, or 0 when there is none; \<open>upd_last\<close> replaces a value by the last
  reading when there is one. A line \<open>overflows\<close> when it is one of these lines and its
  value is infinite, so that \<open>int\<close> raises an \<open>OverflowError\<close>.
\<close>

definition running_line :: "string \<Rightarrow> bool" where
  "running_line l = startswith l ''vllm:num_requests_running''"

definition waiting_line :: "string \<Rightarrow> bool" where
  "waiting_line l =
     (\<not> startswith l ''vllm:num_requests_running'' \<and> startswith l ''vllm:num_requests_waiting'')"

definition readings ::
  "(string \<Rightarrow> pyfloat option) \<Rightarrow> (string \<Rightarrow> bool) \<Rightarrow> string list \<Rightarrow> int list" where
  "readings pf P ls =
     concat (map (\<lambda>l. if P l then (case metric_value pf l of Inr v \<Rightarrow> [v] | Inl e \<Rightarrow> [])
                       else []) ls)"

definition last_or_0 :: "int list \<Rightarrow> int" where
  "last_or_0 vs = (if vs = [] then 0 else last vs)"

definition upd_last :: "int list \<Rightarrow> int option \<Rightarrow> int option" where
  "upd_last vs x = (if vs = [] then x else Some (last vs))"

definition overflows :: "(string \<Rightarrow> pyfloat option) \<Rightarrow> string \<Rightarrow> bool" where
  "overflows pf l =
     ((running_line l \<or> waiting_line l) \<and> metric_value pf l = Inl OverflowError)"

section \<open>Scenarios\<close>

text \<open>
  Scenario S5: session \<open>S\<close> issues five requests, each completed one second after its
  submission, on a tracker with \<open>cleanup_interval = stale_timeout = 0.1\<close>; a cleanup
  runs once a second has elapsed after the last completion.
\<close>

definition S5_tracker :: tracker where
  "S5_tracker = new_tracker 1000 0.1 0.1"

definition S5_ops :: "tracker_op list" where
  "S5_ops =
     [Submit 1 ''r1'' ''10.0.0.1'' ''m'' ''/v1/chat/completions'' (Some ''S'') None None None,
      Complete 2 ''r1'' True,
      Submit 3 ''r2'' ''10.0.0.1'' ''m'' ''/v1/chat/completions'' (Some ''S'') None None None,
      Complete 4 ''r2'' True,
      Submit 5 ''r3'' ''10.0.0.1'' ''m'' ''/v1/chat/completions'' (Some ''S'') None None None,
      Complete 6 ''r3'' True,
      Submit 7 ''r4'' ''10.0.0.1'' ''m'' ''/v1/chat/completions'' (Some ''S'') None None None,
      Complete 8 ''r4'' True,
      Submit 9 ''r5'' ''10.0.0.1'' ''m'' ''/v1/chat/completions'' (Some ''S'') None None None,
      Complete 10 ''r5'' True,
      Cleanup 11]"

text \<open>
  A request \<open>r\<close> of session \<open>S\<close> that is submitted, started and completed on a fresh
  tracker with the default settings, and the tracker after \<open>r\<close> is then submitted a
  second time.
\<close>

definition dup_first :: tracker where
  "dup_first =
     complete 3 ''r'' True
       (start_processing 2 ''r'' ''http://127.0.0.1:5900''
          (snd (submit 1 ''r'' ''10.0.0.1'' ''m'' ''/v1/chat/completions'' (Some ''S'')
                  None None None (new_tracker 1000 60 600))))"

definition dup_second :: tracker where
  "dup_second =
     snd (submit 4 ''r'' ''10.0.0.1'' ''m'' ''/v1/chat/completions'' (Some ''S'')
            None None None dup_first)"

text \<open>
  The tracker after \<open>r\<close> is then also started and completed a second time, on another
  backend and as a failure.
\<close>

definition dup_both :: tracker where
  "dup_both =
     complete 6 ''r'' False (start_processing 5 ''r'' ''http://127.0.0.1:5910'' dup_second)"

text \<open>
  A tracker with \<open>max_history = 2\<close> and the default intervals that holds, at clock
  reading 1000, a request \<open>a\<close> completed long ago, a request \<open>b\<close> pending for long,
  the request \<open>c\<close> completed at 960, the request \<open>d\<close>, submitted after \<open>c\<close> but failed
  before \<open>c\<close> completed, at 950, and the request \<open>e\<close> in flight. In the store \<open>c\<close>
  comes before \<open>d\<close>; by completion time \<open>d\<close> is the older one.
\<close>

definition cleanup_example :: tracker where
  "cleanup_example =
     snd (run_ops
       [Submit 90 ''a'' ''10.0.0.1'' ''m'' ''/v1/x'' None None None None,
        Complete 100 ''a'' True,
        Submit 200 ''b'' ''10.0.0.1'' ''m'' ''/v1/x'' None None None None,
        Submit 940 ''c'' ''10.0.0.1'' ''m'' ''/v1/x'' None None None None,
        Submit 945 ''d'' ''10.0.0.1'' ''m'' ''/v1/x'' None None None None,
        Complete 950 ''d'' False,
        Complete 960 ''c'' True,
        Submit 990 ''e'' ''10.0.0.1'' ''m'' ''/v1/x'' None None None None,
        StartProcessing 991 ''e'' ''http://127.0.0.1:5900'']
       (new_tracker 2 60 600))"

text \<open>
  A request for model \<open>m\<close> from \<open>10.0.0.1\<close> whose forwarded call times out one second
  after it began, with the request id \<open>rid\<close> and all clock readings counted from
  \<open>t0\<close>.
\<close>

definition timeout_request :: "string \<Rightarrow> real \<Rightarrow> http_request" where
  "timeout_request rid t0 =
     \<lparr> rq_id = rid, rq_remote = Some ''10.0.0.1'', rq_headers = [], rq_query_model = None,
       rq_body_model = Some ''m'', rq_body_inspect = Inspected ''hello'',
       rq_upstream = TimedOut, t_submit = t0, t_fetch = t0, t_start = t0, t_begin = t0,
       t_backend_start = t0, t_backend_end = t0 + 1, t_end = t0 + 1, t_complete = t0 + 1 \<rparr>"



text \<open>
  \<open>float\<close> on the strings that the examples pass to it: \<open>float('3.7') = 3.7\<close>,
  \<open>float('2.0') = 2.0\<close>, \<open>float('inf')\<close> is the infinity, and \<open>float('busy')\<close> raises a
  \<open>ValueError\<close>, which is the answer \<open>None\<close>.
\<close>

definition float_examples :: "string \<Rightarrow> pyfloat option" where
  "float_examples = map_of [(''3.7'', Finite 3.7), (''2.0'', Finite 2), (''inf'', PosInf)]"

text \<open>
  An environment in which no backend answers the model listing, the health probe or the
  metrics request.
\<close>

definition quiet_env :: env where
  "quiet_env = \<lparr> py_float = float_examples, models_reply = (\<lambda>u. NoReply),
                  health_reply = (\<lambda>u. None), metrics_reply = (\<lambda>u. None) \<rparr>"






text \<open>
  An environment in which every \<open>/metrics\<close> request is answered with status \<open>code\<close> and
  the text \<open>txt\<close>, and a backend with \<open>gpu_load = 9\<close> whose load was last refreshed at
  clock reading 0.
\<close>

definition metrics_env :: "int \<Rightarrow> string \<Rightarrow> env" where
  "metrics_env code txt =
     \<lparr> py_float = float_examples, models_reply = (\<lambda>u. NoReply),
       health_reply = (\<lambda>u. None), metrics_reply = (\<lambda>u. Some (code, txt)) \<rparr>"

definition loaded_backend :: backend where
  "loaded_backend = (new_backend ''127.0.0.1'' 5900 '''')\<lparr>gpu_load := 9\<rparr>"

text \<open>
  Three metrics texts: one with a comment line, 3.7 requests running and 2.0 waiting;
  one whose running value is infinite; one whose running value is no number and that
  has no line for the waiting requests.
\<close>

definition good_metrics :: string where
  "good_metrics =
     ''# TYPE vllm:num_requests_running gauge'' @ [CHR 0x0A]
     @ ''vllm:num_requests_running{model_name=m} 3.7'' @ [CHR 0x0A]
     @ ''vllm:num_requests_waiting{model_name=m} 2.0''"

definition overflow_metrics :: string where
  "overflow_metrics =
     ''vllm:num_requests_running inf'' @ [CHR 0x0A] @ ''vllm:num_requests_waiting 2.0''"

definition broken_metrics :: string where
  "broken_metrics = ''vllm:num_requests_running busy''"

section \<open>Verified properties\<close>

subsection \<open>Selection and round robin\<close>

lemma positions_all:
  assumes "\<forall>x \<in> set xs. P x"
  shows "positions P xs = [0..<length xs]"
  unfolding positions_def using assms by (intro filter_True) simp

lemma positions_subset: "set (positions P xs) \<subseteq> {0..<length xs}"
  by (auto simp: positions_def)

lemma positions_sat: "i \<in> set (positions P xs) \<Longrightarrow> P (xs ! i)"
  by (simp add: positions_def)

lemma get_backend_rr_all_healthy:
  assumes h: "\<forall>b \<in> set (backends pool). healthy b" and ne: "backends pool \<noteq> []"
  shows "get_backend pool ''round_robin'' =
           Inr (Some (nat (pool_index pool mod int (length (backends pool)))),
                pool\<lparr>backends := (backends pool)
                        [nat (pool_index pool mod int (length (backends pool))) :=
                           (backends pool ! nat (pool_index pool mod int (length (backends pool))))
                             \<lparr>inflight := inflight (backends pool ! nat (pool_index pool mod int (length (backends pool)))) + 1\<rparr>],
                     pool_index := pool_index pool + 1\<rparr>)"
proof -
  let ?bs = "backends pool"
  let ?k = "nat (pool_index pool mod int (length ?bs))"
  have pos: "positions healthy ?bs = [0..<length ?bs]"
    using h by (rule positions_all)
  have hb: "map (\<lambda>i. ?bs ! i) [0..<length ?bs] = ?bs"
    by (rule map_nth)
  have lt: "?k < length ?bs"
    using ne by (simp add: nat_less_iff)
  have sel: "select_backend ?bs ''round_robin'' (pool_index pool) = Inr (?k, pool_index pool + 1)"
    using ne by (simp add: select_backend_def)
  show ?thesis
    using ne lt by (simp add: get_backend_def Let_def pos hb sel del: upt.simps)
qed

lemma all_healthy_inflight_update:
  assumes "\<forall>b \<in> set bs. healthy b" and "j < length bs"
  shows "\<forall>b \<in> set (bs[j := (bs ! j)\<lparr>inflight := v\<rparr>]). healthy b"
proof
  fix b assume "b \<in> set (bs[j := (bs ! j)\<lparr>inflight := v\<rparr>])"
  then have "b = (bs ! j)\<lparr>inflight := v\<rparr> \<or> b \<in> set bs"
    using set_update_subset_insert [of bs j "(bs ! j)\<lparr>inflight := v\<rparr>"] by auto
  moreover have "healthy (bs ! j)"
    using assms by simp
  ultimately show "healthy b"
    using assms(1) by auto
qed

lemma acquires_rr:
  assumes "\<forall>b \<in> set (backends pool). healthy b" and "backends pool \<noteq> []"
  shows "fst (acquires n ''round_robin'' pool) =
           map (\<lambda>k. Inr (Some (nat ((pool_index pool + int k) mod int (length (backends pool))))))
               [0..<n]
         \<and> pool_index (snd (acquires n ''round_robin'' pool)) = pool_index pool + int n
         \<and> length (backends (snd (acquires n ''round_robin'' pool))) = length (backends pool)"
  using assms
proof (induction n arbitrary: pool)
  case 0
  then show ?case by simp
next
  case (Suc n)
  define bs where "bs = backends pool"
  define j where "j = nat (pool_index pool mod int (length bs))"
  define pool' where
    "pool' = pool\<lparr>backends := bs[j := (bs ! j)\<lparr>inflight := inflight (bs ! j) + 1\<rparr>],
                  pool_index := pool_index pool + 1\<rparr>"
  define rest where "rest = acquires n ''round_robin'' pool'"
  have g: "get_backend pool ''round_robin'' = Inr (Some j, pool')"
    unfolding pool'_def j_def bs_def using Suc.prems by (rule get_backend_rr_all_healthy)
  have lt: "j < length bs"
    using Suc.prems(2) by (simp add: j_def bs_def nat_less_iff)
  have bs': "backends pool' = bs[j := (bs ! j)\<lparr>inflight := inflight (bs ! j) + 1\<rparr>]"
    by (simp add: pool'_def)
  have idx': "pool_index pool' = pool_index pool + 1"
    by (simp add: pool'_def)
  have len': "length (backends pool') = length bs"
    by (simp add: bs')
  have h': "\<forall>b \<in> set (backends pool'). healthy b"
    unfolding bs' using Suc.prems(1) lt unfolding bs_def by (rule all_healthy_inflight_update)
  have ne': "backends pool' \<noteq> []"
    using Suc.prems(2) len' by (auto simp: bs_def)
  have ih: "fst rest = map (\<lambda>k. Inr (Some (nat ((pool_index pool' + int k) mod int (length (backends pool'))))))
                          [0..<n]"
    and ih2: "pool_index (snd rest) = pool_index pool' + int n"
    and ih3: "length (backends (snd rest)) = length (backends pool')"
    using Suc.IH [OF h' ne'] by (simp_all add: rest_def)
  have step: "acquires (Suc n) ''round_robin'' pool = (Inr (Some j) # fst rest, snd rest)"
    by (simp add: g rest_def split: prod.split)
  have shift: "fst rest = map (\<lambda>k. Inr (Some (nat ((pool_index pool + int k) mod int (length bs)))))
                              (map Suc [0..<n])"
    unfolding ih idx' len' by (simp add: algebra_simps)
  have upt: "[0..<Suc n] = 0 # map Suc [0..<n]"
    by (simp add: upt_conv_Cons map_Suc_upt del: upt_Suc)
  have a: "fst (acquires (Suc n) ''round_robin'' pool) =
             map (\<lambda>k. Inr (Some (nat ((pool_index pool + int k) mod int (length bs))))) [0..<Suc n]"
    unfolding step upt shift by (simp add: j_def)
  have b: "pool_index (snd (acquires (Suc n) ''round_robin'' pool)) = pool_index pool + int (Suc n)"
    unfolding step using ih2 idx' by simp
  have c: "length (backends (snd (acquires (Suc n) ''round_robin'' pool))) = length bs"
    unfolding step using ih3 len' by simp
  show ?case using a b c unfolding bs_def by blast
qed

lemma rr_positions_perm:
  assumes "0 < n"
  shows "mset (map (\<lambda>k. nat ((i + int k) mod int n)) [0..<n]) = mset [0..<n]"
proof -
  let ?f = "\<lambda>k. nat ((i + int k) mod int n)"
  have inj: "inj_on ?f {0..<n}"
  proof (rule inj_onI)
    fix a b assume a: "a \<in> {0..<n}" and b: "b \<in> {0..<n}" and eq: "?f a = ?f b"
    have "(i + int a) mod int n = (i + int b) mod int n"
      using eq assms by (simp add: nat_eq_iff)
    then have "int n dvd (i + int a) - (i + int b)"
      by (simp add: mod_eq_dvd_iff)
    then have d: "int n dvd int a - int b" by simp
    have "\<bar>int a - int b\<bar> < int n" using a b by auto
    with d have "int a - int b = 0"
      using zdvd_not_zless [of "\<bar>int a - int b\<bar>" "int n"] by fastforce
    then show "a = b" by simp
  qed
  have dist: "distinct (map ?f [0..<n])"
    using inj by (simp add: distinct_map)
  have sub: "set (map ?f [0..<n]) \<subseteq> {0..<n}"
    using assms by (auto simp: nat_less_iff)
  have "card (set (map ?f [0..<n])) = n"
    using dist distinct_card [of "map ?f [0..<n]"] by simp
  with sub have "set (map ?f [0..<n]) = {0..<n}"
    by (intro card_subset_eq) auto
  then have "set (map ?f [0..<n]) = set [0..<n]" by simp
  with dist show ?thesis
    by (intro set_eq_iff_mset_eq_distinct [THEN iffD1]) auto
qed

text \<open>
  Claim C3. Under the \<open>round_robin\<close> strategy, on a pool of \<open>n \<ge> 2\<close> backends that are
  all healthy, \<open>n\<close> sequential acquires succeed, the k-th of them returns the backend at
  position \<open>(index + k) mod n\<close> of the pool's list, the rotation index has advanced by
  exactly one per acquire, and the positions returned are a permutation of
  \<open>0, ..., n - 1\<close>: each backend is returned exactly once. Round robin does not look at
  the load, so no hypothesis on it is needed.
\<close>

theorem round_robin_each_backend_once:
  assumes "\<forall>b \<in> set (backends pool). healthy b"
    and "n = length (backends pool)" and "2 \<le> n"
  shows "fst (acquires n ''round_robin'' pool) =
           map (\<lambda>k. Inr (Some (nat ((pool_index pool + int k) mod int n)))) [0..<n]
         \<and> mset (map (\<lambda>k. nat ((pool_index pool + int k) mod int n)) [0..<n]) = mset [0..<n]
         \<and> pool_index (snd (acquires n ''round_robin'' pool)) = pool_index pool + int n"
proof -
  have ne: "backends pool \<noteq> []" using assms(2,3) by auto
  have pos: "0 < n" using assms(3) by simp
  show ?thesis
    using acquires_rr [OF assms(1) ne, of n] rr_positions_perm [OF pos, of "pool_index pool"]
    unfolding assms(2) by simp
qed

theorem round_robin_each_backend_once_witness:
  "list_all healthy (backends S1_pool) \<and> length (backends S1_pool) = 2
   \<and> fst (acquires 2 ''round_robin'' S1_pool) = [Inr (Some 0), Inr (Some 1)]
   \<and> pool_index (snd (acquires 2 ''round_robin'' S1_pool)) = 2"
proof -
  have bs: "backends S1_pool =
              [new_backend ''127.0.0.1'' 5900 '''', new_backend ''127.0.0.1'' 5910 '''']"
    by (simp add: S1_pool_def pool_add_backend_def new_pool_def new_backend_def)
  have idx: "pool_index S1_pool = 0"
    by (simp add: S1_pool_def pool_add_backend_def new_pool_def new_backend_def)
  have h: "\<forall>b \<in> set (backends S1_pool). healthy b"
    by (simp add: bs new_backend_def)
  have n: "(2::nat) = length (backends S1_pool)"
    by (simp add: bs)
  have up: "[0..<2] = [0, Suc 0]"
    by (simp add: upt_conv_Cons)
  show ?thesis
    using round_robin_each_backend_once [OF h n] h n by (simp add: idx up list_all_iff)
qed

subsection \<open>Session turn numbers\<close>

lemma turn_counter_start_processing [simp]:
  "session_turn_counters (start_processing now rid b t) = session_turn_counters t"
  by (simp add: start_processing_def split: option.split)

lemma turn_counter_complete [simp]:
  "session_turn_counters (complete now rid ok t) = session_turn_counters t"
  by (simp add: complete_def split: option.split)

lemma turn_counter_annotate [simp]:
  "session_turn_counters (annotate rid a t) = session_turn_counters t"
  by (simp add: annotate_def split: option.split)

lemma turn_counter_cleanup [simp]:
  "session_turn_counters (cleanup_old_requests now t) = session_turn_counters t"
  by (simp add: cleanup_old_requests_def Let_def)

lemma issued_turns_append:
  "issued_turns s (l1 @ l2) = issued_turns s l1 @ issued_turns s l2"
  by (simp add: issued_turns_def List.map_filter_def)

lemma issued_turns_Nil [simp]: "issued_turns s [] = []"
  by (simp add: issued_turns_def List.map_filter_def)

lemma submit_turn:
  "turn_number (fst (submit now rid src mdl pth sid tid cid ccmd t)) =
     (case sid of None \<Rightarrow> None
      | Some s \<Rightarrow> if s \<noteq> [] then Some (turn_counter t s + 1) else None)"
  by (simp add: submit_def turn_counter_def Let_def split: option.split)

lemma submit_session:
  "session_id (fst (submit now rid src mdl pth sid tid cid ccmd t)) = sid"
  by (simp add: submit_def Let_def)

lemma submit_counter:
  "turn_counter (snd (submit now rid src mdl pth sid tid cid ccmd t)) s' =
     (if sid = Some s' \<and> s' \<noteq> [] then turn_counter t s' + 1 else turn_counter t s')"
  by (auto simp: submit_def turn_counter_def Let_def update_conv' split: option.split)

lemma issued_submit:
  "issued_turns s' [fst (submit now rid src mdl pth sid tid cid ccmd t)] =
     (if sid = Some s' \<and> s' \<noteq> [] then [turn_counter t s' + 1] else [])"
  by (auto simp: issued_turns_def List.map_filter_def submit_turn submit_session
           split: option.split)

lemma mset_upto_Suc:
  assumes "0 \<le> k"
  shows "mset [1..k + 1] = add_mset (k + 1) (mset [1..k])"
proof -
  have "[1..k + 1] = [1..k] @ [k + 1]"
    using assms upto_rec2 [of 1 "k + 1"] by simp
  then show ?thesis by simp
qed

lemma tracker_step_inv:
  assumes "\<forall>s. 0 \<le> turn_counter t s \<and> mset (issued_turns s l0) = mset [1..turn_counter t s]"
  shows "\<forall>s. 0 \<le> turn_counter (snd (tracker_step x t)) s
           \<and> mset (issued_turns s (l0 @ fst (tracker_step x t)))
               = mset [1..turn_counter (snd (tracker_step x t)) s]"
proof (cases x)
  case (Submit now rid src mdl pth sid tid cid ccmd)
  show ?thesis
  proof
    fix s
    have st: "tracker_step x t =
                ([fst (submit now rid src mdl pth sid tid cid ccmd t)],
                 snd (submit now rid src mdl pth sid tid cid ccmd t))"
      by (simp add: Submit split: prod.split)
    have a: "0 \<le> turn_counter t s" and b: "mset (issued_turns s l0) = mset [1..turn_counter t s]"
      using assms by simp_all
    show "0 \<le> turn_counter (snd (tracker_step x t)) s
           \<and> mset (issued_turns s (l0 @ fst (tracker_step x t)))
               = mset [1..turn_counter (snd (tracker_step x t)) s]"
      unfolding st using a b mset_upto_Suc [OF a]
      by (simp add: issued_turns_append issued_submit submit_counter)
  qed
next
  case (StartProcessing now rid b)
  then show ?thesis using assms by (simp add: turn_counter_def)
next
  case (Complete now rid ok)
  then show ?thesis using assms by (simp add: turn_counter_def)
next
  case (Annotate rid a)
  then show ?thesis using assms by (simp add: turn_counter_def)
next
  case (Cleanup now)
  then show ?thesis using assms by (simp add: turn_counter_def)
qed

lemma run_from_inv:
  assumes "\<forall>s. 0 \<le> turn_counter t s \<and> mset (issued_turns s l0) = mset [1..turn_counter t s]"
  shows "\<forall>s. 0 \<le> turn_counter (snd (run_from l0 ops t)) s
           \<and> mset (issued_turns s (fst (run_from l0 ops t)))
               = mset [1..turn_counter (snd (run_from l0 ops t)) s]"
  using assms
proof (induction ops arbitrary: l0 t)
  case Nil
  then show ?case by simp
next
  case (Cons x xs)
  have "\<forall>s. 0 \<le> turn_counter (snd (tracker_step x t)) s
           \<and> mset (issued_turns s (l0 @ fst (tracker_step x t)))
               = mset [1..turn_counter (snd (tracker_step x t)) s]"
    using Cons.prems by (rule tracker_step_inv)
  from Cons.IH [OF this] show ?case by simp
qed

text \<open>
  Claim C5. Starting from a fresh tracker, after any history of tracker operations
  the multiset of turn numbers issued to a session \<open>s\<close> is \<open>{1, ..., K}\<close>, where
  \<open>K\<close> is the session's turn counter (0 when the session has none). Cleanup leaves
  the counter mapping as it is, so on any tracker state, whatever cleanup has evicted,
  the next submit for a non-empty session id \<open>s\<close> is assigned turn number \<open>K + 1\<close>.
\<close>

theorem turn_numbers_one_to_K:
  "mset (issued_turns s (fst (run_ops ops (new_tracker mh ci st))))
     = mset [1..turn_counter (snd (run_ops ops (new_tracker mh ci st))) s]
   \<and> session_turn_counters (cleanup_old_requests now t) = session_turn_counters t
   \<and> (s \<noteq> [] \<longrightarrow>
        turn_number (fst (submit now' rid src mdl pth (Some s) tid cid ccmd
                            (cleanup_old_requests now t)))
          = Some (turn_counter t s + 1))"
proof -
  have init: "\<forall>s. 0 \<le> turn_counter (new_tracker mh ci st) s
               \<and> mset (issued_turns s []) = mset [1..turn_counter (new_tracker mh ci st) s]"
    by (simp add: turn_counter_def new_tracker_def)
  have a: "mset (issued_turns s (fst (run_ops ops (new_tracker mh ci st))))
             = mset [1..turn_counter (snd (run_ops ops (new_tracker mh ci st))) s]"
    using run_from_inv [OF init, of ops] by (simp add: run_ops_def)
  have c: "turn_counter (cleanup_old_requests now t) s = turn_counter t s"
    by (simp add: turn_counter_def)
  show ?thesis
    using a c by (simp add: submit_turn)
qed

lemma S5_final:
  "requests (snd (run_ops S5_ops S5_tracker)) = []
   \<and> session_turn_counters (snd (run_ops S5_ops S5_tracker)) = [(''S'', 5)]"
  by (simp add: run_ops_def S5_ops_def S5_tracker_def new_tracker_def submit_def complete_def
        cleanup_old_requests_def to_expire_def Let_def)

theorem turn_numbers_one_to_K_witness:
  "requests (snd (run_ops S5_ops S5_tracker)) = []
   \<and> mset (issued_turns ''S'' (fst (run_ops S5_ops S5_tracker))) = mset [1..5]
   \<and> turn_number (fst (submit 12 ''r6'' ''10.0.0.1'' ''m'' ''/v1/chat/completions''
                          (Some ''S'') None None None
                          (cleanup_old_requests 12 (snd (run_ops S5_ops S5_tracker)))))
       = Some 6"
proof -
  have k: "turn_counter (snd (run_ops S5_ops S5_tracker)) ''S'' = 5"
    using S5_final by (simp add: turn_counter_def)
  show ?thesis
    using turn_numbers_one_to_K [of "''S''" S5_ops 1000 "0.1" "0.1" 12
            "snd (run_ops S5_ops S5_tracker)" 12 "''r6''" "''10.0.0.1''" "''m''"
            "''/v1/chat/completions''" None None None]
          S5_final k
    by (simp add: S5_tracker_def)
qed

subsection \<open>Repeated tracker calls with one request id\<close>

lemma start_processing_twice:
  "start_processing n2 rid b2 (start_processing n1 rid b1 t) = start_processing n2 rid b2 t"
  by (simp add: start_processing_def update_conv' split: option.split)

lemma complete_twice:
  "complete n2 rid ok2 (complete n1 rid ok1 t) = complete n2 rid ok2 t"
  by (simp add: complete_def update_conv' split: option.split)

lemma submit_requests:
  "requests (snd (submit now rid src mdl pth sid tid cid ccmd t)) =
     AList.update rid (fst (submit now rid src mdl pth sid tid cid ccmd t)) (requests t)"
  by (simp add: submit_def Let_def)

lemma submit_created:
  "fst (submit now rid src mdl pth sid tid cid ccmd t) =
     \<lparr> request_id = rid, source = src, req_model = mdl, path = pth, submitted_at = now,
       started_at = None, completed_at = None, req_backend = None, status = Pending,
       session_id = sid, task_id = tid, client_id = cid, client_command = ccmd,
       request_summary = None, response_summary = None, backend_time_ms = None,
       agent_pre_ms = None, agent_post_ms = None,
       turn_number = (case sid of
                        None \<Rightarrow> None
                      | Some s \<Rightarrow> if s \<noteq> [] then Some (turn_counter t s + 1) else None) \<rparr>"
  by (simp add: submit_def turn_counter_def Let_def split: option.split)

lemma submit_fresh_fields:
  "status (fst (submit now rid src mdl pth sid tid cid ccmd t)) = Pending
   \<and> submitted_at (fst (submit now rid src mdl pth sid tid cid ccmd t)) = now
   \<and> started_at (fst (submit now rid src mdl pth sid tid cid ccmd t)) = None
   \<and> completed_at (fst (submit now rid src mdl pth sid tid cid ccmd t)) = None
   \<and> req_backend (fst (submit now rid src mdl pth sid tid cid ccmd t)) = None"
  by (simp add: submit_def Let_def)

lemma update_keeps_keys:
  assumes "map_of al k = Some v"
  shows "map fst (AList.update k v' al) = map fst al"
proof -
  have "k \<in> fst ` set al" using assms by (rule map_of_SomeD [THEN imageI [where f = fst], simplified])
  then show ?thesis by (simp add: update_keys)
qed

lemma dup_first_request:
  "map_of (requests dup_first) ''r'' =
     Some (fst (submit 1 ''r'' ''10.0.0.1'' ''m'' ''/v1/chat/completions'' (Some ''S'')
                  None None None (new_tracker 1000 60 600))
           \<lparr>started_at := Some 2, req_backend := Some ''http://127.0.0.1:5900'',
            status := InFlight, completed_at := Some 3, status := Completed\<rparr>)"
  by (simp add: dup_first_def complete_def start_processing_def submit_requests update_conv')

lemma dup_first_counters: "session_turn_counters dup_first = [(''S'', 1)]"
  by (simp add: dup_first_def new_tracker_def submit_def Let_def)

lemma dup_second_request:
  "map_of (requests dup_second) ''r'' =
     Some (fst (submit 4 ''r'' ''10.0.0.1'' ''m'' ''/v1/chat/completions'' (Some ''S'')
                  None None None dup_first))"
  by (simp add: dup_second_def submit_requests update_conv')

lemma dup_both_request:
  "map_of (requests dup_both) ''r'' =
     Some (fst (submit 4 ''r'' ''10.0.0.1'' ''m'' ''/v1/chat/completions'' (Some ''S'')
                  None None None dup_first)
           \<lparr>started_at := Some 5, req_backend := Some ''http://127.0.0.1:5910'',
            status := InFlight, completed_at := Some 6, status := Failed\<rparr>)"
  by (simp add: dup_both_def complete_def start_processing_def dup_second_request update_conv')

text \<open>
  Claim C7 fails for \<open>submit\<close>: a second submit of the request id \<open>r\<close>, after \<open>r\<close> was
  submitted, started and completed, puts a fresh pending request in its place and
  raises the session's turn counter from 1 to 2. When \<open>r\<close> is then started and
  completed a second time, the stored request still has the submitted-at and the turn
  number of the second submit, not those of the first sequence.
\<close>

theorem duplicate_submit_counterexample:
  "dup_second \<noteq> dup_first
   \<and> map_option status (map_of (requests dup_first) ''r'') = Some Completed
   \<and> map_option status (map_of (requests dup_second) ''r'') = Some Pending
   \<and> map_option turn_number (map_of (requests dup_first) ''r'') = Some (Some 1)
   \<and> map_option turn_number (map_of (requests dup_second) ''r'') = Some (Some 2)
   \<and> session_turn_counters dup_first = [(''S'', 1)]
   \<and> session_turn_counters dup_second = [(''S'', 2)]
   \<and> map_option submitted_at (map_of (requests dup_first) ''r'') = Some 1
   \<and> map_option submitted_at (map_of (requests dup_both) ''r'') = Some 4
   \<and> map_option turn_number (map_of (requests dup_both) ''r'') = Some (Some 2)
   \<and> session_turn_counters dup_both = [(''S'', 2)]"
proof -
  note c1 = dup_first_counters
  have c2: "session_turn_counters dup_second = [(''S'', 2)]"
    by (simp add: dup_second_def c1 submit_def Let_def)
  have c3: "session_turn_counters dup_both = [(''S'', 2)]"
    by (simp add: dup_both_def c2)
  have ne: "dup_second \<noteq> dup_first"
    using c1 c2 by auto
  have k1: "turn_counter (new_tracker 1000 60 600) ''S'' = 0"
    by (simp add: turn_counter_def new_tracker_def)
  have k2: "turn_counter dup_first ''S'' = 1"
    by (simp add: turn_counter_def c1)
  show ?thesis
    using ne c1 c2 c3
    by (simp add: dup_first_request dup_second_request dup_both_request submit_turn
          submit_fresh_fields k1 k2)
qed

text \<open>
  Claim C7 as amended. All three calls are last-wins. Let the request id be in the
  store already, with the request \<open>req\<close>, after whatever happened to it since it was
  first submitted. A submit with this id then leaves a tracker that differs in the
  store and the turn counters only; it keeps the ids of the store in their order, and
  puts at the place of \<open>req\<close> a fresh request: pending, submitted at the time of this
  call, with no started-at, completed-at or backend and none of the summaries and
  timings, and with the turn number that this call drew, one more than the session
  counter before it, which the call raises by one (so two submits raise it twice). Two
  calls of \<open>start_processing\<close> leave \<open>req\<close> with the started-at and the backend of the
  second call and the status in flight; two calls of \<open>complete\<close> leave it with the
  completed-at and the outcome of the second call; nothing else changes.
\<close>

theorem repeated_calls_last_wins:
  assumes known: "map_of (requests t) rid = Some req"
  shows "snd (submit now rid src mdl pth sid tid cid ccmd t) =
           t\<lparr>requests := AList.update rid
                \<lparr> request_id = rid, source = src, req_model = mdl, path = pth,
                  submitted_at = now, started_at = None, completed_at = None,
                  req_backend = None, status = Pending, session_id = sid, task_id = tid,
                  client_id = cid, client_command = ccmd, request_summary = None,
                  response_summary = None, backend_time_ms = None, agent_pre_ms = None,
                  agent_post_ms = None,
                  turn_number = (case sid of
                                   None \<Rightarrow> None
                                 | Some s \<Rightarrow>
                                     if s \<noteq> [] then Some (turn_counter t s + 1) else None) \<rparr>
                (requests t),
              session_turn_counters :=
                session_turn_counters (snd (submit now rid src mdl pth sid tid cid ccmd t))\<rparr>
       \<and> map fst (requests (snd (submit now rid src mdl pth sid tid cid ccmd t)))
           = map fst (requests t)
       \<and> turn_counter (snd (submit now rid src mdl pth sid tid cid ccmd t)) s'
           = (if sid = Some s' \<and> s' \<noteq> [] then turn_counter t s' + 1 else turn_counter t s')
       \<and> turn_counter (snd (submit n2 rid src2 mdl2 pth2 sid tid2 cid2 ccmd2
                               (snd (submit now rid src mdl pth sid tid cid ccmd t)))) s'
           = (if sid = Some s' \<and> s' \<noteq> [] then turn_counter t s' + 2 else turn_counter t s')
       \<and> start_processing n2 rid b2 (start_processing n1 rid b1 t) =
           t\<lparr>requests := AList.update rid
                (req\<lparr>started_at := Some n2, req_backend := Some b2, status := InFlight\<rparr>)
                (requests t)\<rparr>
       \<and> complete n2 rid ok2 (complete n1 rid ok1 t) =
           t\<lparr>requests := AList.update rid
                (req\<lparr>completed_at := Some n2,
                     status := (if ok2 then Completed else Failed)\<rparr>)
                (requests t)\<rparr>"
proof -
  let ?t' = "snd (submit now rid src mdl pth sid tid cid ccmd t)"
  have st: "?t' = t\<lparr>requests := requests ?t', session_turn_counters := session_turn_counters ?t'\<rparr>"
    by (simp add: submit_def Let_def)
  have a: "?t' = t\<lparr>requests := AList.update rid
                (fst (submit now rid src mdl pth sid tid cid ccmd t)) (requests t),
              session_turn_counters := session_turn_counters ?t'\<rparr>"
    using st by (simp add: submit_requests)
  have b: "map fst (requests ?t') = map fst (requests t)"
    unfolding submit_requests using known by (rule update_keeps_keys)
  have c: "start_processing n2 rid b2 (start_processing n1 rid b1 t) =
           t\<lparr>requests := AList.update rid
                (req\<lparr>started_at := Some n2, req_backend := Some b2, status := InFlight\<rparr>)
                (requests t)\<rparr>"
    unfolding start_processing_twice using known by (simp add: start_processing_def)
  have d: "complete n2 rid ok2 (complete n1 rid ok1 t) =
           t\<lparr>requests := AList.update rid
                (req\<lparr>completed_at := Some n2,
                     status := (if ok2 then Completed else Failed)\<rparr>)
                (requests t)\<rparr>"
    unfolding complete_twice using known by (simp add: complete_def)
  show ?thesis
    using a b c d unfolding submit_created by (simp add: submit_counter)
qed

theorem repeated_calls_last_wins_witness:
  "map_option status (map_of (requests dup_first) ''r'') = Some Completed
   \<and> map_option req_backend (map_of (requests dup_first) ''r'') = Some (Some ''http://127.0.0.1:5900'')
   \<and> map_option (\<lambda>r. (submitted_at r, started_at r, completed_at r, req_backend r, status r,
                        turn_number r))
        (map_of (requests (snd (submit 4 ''r'' ''10.0.0.1'' ''m'' ''/v1/chat/completions''
                                  (Some ''S'') None None None dup_first))) ''r'')
       = Some (4, None, None, None, Pending, Some 2)
   \<and> map fst (requests (snd (submit 4 ''r'' ''10.0.0.1'' ''m'' ''/v1/chat/completions''
                                  (Some ''S'') None None None dup_first))) = [''r'']
   \<and> map_option (\<lambda>r. (started_at r, req_backend r, status r, completed_at r))
        (map_of (requests (start_processing 8 ''r'' ''http://127.0.0.1:5910''
                             (start_processing 7 ''r'' ''http://127.0.0.1:5900'' dup_first))) ''r'')
       = Some (Some 8, Some ''http://127.0.0.1:5910'', InFlight, Some 3)
   \<and> map_option (\<lambda>r. (started_at r, req_backend r, status r, completed_at r))
        (map_of (requests (complete 8 ''r'' False (complete 7 ''r'' True dup_first))) ''r'')
       = Some (Some 2, Some ''http://127.0.0.1:5900'', Failed, Some 8)"
proof -
  let ?req = "fst (submit 1 ''r'' ''10.0.0.1'' ''m'' ''/v1/chat/completions'' (Some ''S'')
                  None None None (new_tracker 1000 60 600))
           \<lparr>started_at := Some 2, req_backend := Some ''http://127.0.0.1:5900'',
            status := InFlight, completed_at := Some 3, status := Completed\<rparr>"
  have k2: "turn_counter dup_first ''S'' = 1"
    by (simp add: turn_counter_def dup_first_counters)
  have keys: "map fst (requests dup_first) = [''r'']"
    by (simp add: dup_first_def complete_def start_processing_def submit_requests update_conv'
          new_tracker_def)
  note inst = repeated_calls_last_wins [OF dup_first_request,
         where now = 4 and src = "''10.0.0.1''" and mdl = "''m''"
           and pth = "''/v1/chat/completions''" and sid = "Some ''S''" and tid = None
           and cid = None and ccmd = None and s' = "''S''" and ?n2.0 = 8
           and ?b2.0 = "''http://127.0.0.1:5910''" and ?n1.0 = 7
           and ?b1.0 = "''http://127.0.0.1:5900''" and ?ok2.0 = False and ?ok1.0 = True]
  let ?t' = "snd (submit 4 ''r'' ''10.0.0.1'' ''m'' ''/v1/chat/completions''
                    (Some ''S'') None None None dup_first)"
  have "requests ?t' = requests (dup_first\<lparr>requests := AList.update ''r''
                \<lparr> request_id = ''r'', source = ''10.0.0.1'', req_model = ''m'',
                  path = ''/v1/chat/completions'',
                  submitted_at = 4, started_at = None, completed_at = None,
                  req_backend = None, status = Pending, session_id = Some ''S'', task_id = None,
                  client_id = None, client_command = None, request_summary = None,
                  response_summary = None, backend_time_ms = None, agent_pre_ms = None,
                  agent_post_ms = None,
                  turn_number = Some (turn_counter dup_first ''S'' + 1) \<rparr>
                (requests dup_first),
              session_turn_counters := session_turn_counters ?t'\<rparr>)"
    using inst [THEN conjunct1] by simp
  then have sub: "map_option (\<lambda>r. (submitted_at r, started_at r, completed_at r, req_backend r,
                        status r, turn_number r)) (map_of (requests ?t') ''r'')
       = Some (4, None, None, None, Pending, Some 2)"
    by (simp add: update_conv' k2)
  have pos: "map fst (requests ?t') = [''r'']"
    using inst [THEN conjunct2, THEN conjunct1] keys by simp
  have "requests (start_processing 8 ''r'' ''http://127.0.0.1:5910''
                             (start_processing 7 ''r'' ''http://127.0.0.1:5900'' dup_first))
         = AList.update ''r''
                (?req\<lparr>started_at := Some 8, req_backend := Some ''http://127.0.0.1:5910'',
                      status := InFlight\<rparr>)
                (requests dup_first)"
    using inst [THEN conjunct2, THEN conjunct2, THEN conjunct2, THEN conjunct2, THEN conjunct1]
    by simp
  then have sp: "map_option (\<lambda>r. (started_at r, req_backend r, status r, completed_at r))
        (map_of (requests (start_processing 8 ''r'' ''http://127.0.0.1:5910''
                             (start_processing 7 ''r'' ''http://127.0.0.1:5900'' dup_first))) ''r'')
       = Some (Some 8, Some ''http://127.0.0.1:5910'', InFlight, Some 3)"
    by (simp add: update_conv')
  have "requests (complete 8 ''r'' False (complete 7 ''r'' True dup_first))
         = AList.update ''r''
                (?req\<lparr>completed_at := Some 8, status := Failed\<rparr>)
                (requests dup_first)"
    using inst [THEN conjunct2, THEN conjunct2, THEN conjunct2, THEN conjunct2, THEN conjunct2]
    by simp
  then have cp: "map_option (\<lambda>r. (started_at r, req_backend r, status r, completed_at r))
        (map_of (requests (complete 8 ''r'' False (complete 7 ''r'' True dup_first))) ''r'')
       = Some (Some 2, Some ''http://127.0.0.1:5900'', Failed, Some 8)"
    by (simp add: update_conv')
  show ?thesis
    using sub pos sp cp by (simp add: dup_first_request)
qed

subsection \<open>Cleanup of the tracker store\<close>

lemma fold_delete_filter:
  "fold AList.delete ks al = filter (\<lambda>x. fst x \<notin> set ks) al"
proof (induction ks arbitrary: al)
  case Nil
  then show ?case by simp
next
  case (Cons k ks)
  have "AList.delete k al = filter (\<lambda>x. fst x \<noteq> k) al"
    unfolding AList.delete_eq by (rule filter_cong) auto
  then show ?case
    using Cons.IH [of "AList.delete k al"] by (simp add: conj_commute)
qed

lemma filter_keys_entries:
  assumes "distinct (map fst rs)" and "set ys \<subseteq> set rs"
  shows "filter (\<lambda>x. fst x \<notin> set (map fst ys)) rs = filter (\<lambda>x. x \<notin> set ys) rs"
proof (rule filter_cong [OF refl])
  fix x assume x: "x \<in> set rs"
  have "fst x \<in> fst ` set ys \<longleftrightarrow> x \<in> set ys"
  proof
    assume "fst x \<in> fst ` set ys"
    then obtain y where y: "y \<in> set ys" and e: "fst y = fst x" by auto
    have "y \<in> set rs" using y assms(2) by auto
    then have "y = x"
      using assms(1) x e by (metis eq_key_imp_eq_value prod.collapse)
    then show "x \<in> set ys" using y by simp
  next
    assume "x \<in> set ys"
    then show "fst x \<in> fst ` set ys" by simp
  qed
  then show "(fst x \<notin> set (map fst ys)) = (x \<notin> set ys)" by simp
qed

lemma to_expire_spec:
  assumes "completed_at (snd x) \<noteq> Some 0"
  shows "to_expire (now - cleanup_interval t) (now - stale_timeout t) (snd x)
           \<longleftrightarrow> old_completed now t x \<or> stale_pending now t x"
  using assms
  by (cases "status (snd x)")
     (auto simp: to_expire_def old_completed_def stale_pending_def is_done_def
           split: option.splits)

lemma first_phase:
  assumes d: "distinct (map fst (requests t))"
    and z: "\<forall>x \<in> set (requests t). completed_at (snd x) \<noteq> Some 0"
  shows "fold AList.delete
           (map fst (filter (\<lambda>x. to_expire (now - cleanup_interval t) (now - stale_timeout t)
                                   (snd x)) (requests t)))
           (requests t)
         = after_expiry now t"
proof -
  let ?P = "\<lambda>x. to_expire (now - cleanup_interval t) (now - stale_timeout t) (snd x)"
  have "fold AList.delete (map fst (filter ?P (requests t))) (requests t)
          = filter (\<lambda>x. x \<notin> set (filter ?P (requests t))) (requests t)"
    unfolding fold_delete_filter using d by (rule filter_keys_entries) auto
  also have "\<dots> = filter (\<lambda>x. \<not> ?P x) (requests t)"
    by (rule filter_cong [OF refl]) simp
  also have "\<dots> = after_expiry now t"
    unfolding after_expiry_def
    by (rule filter_cong [OF refl]) (use z to_expire_spec in auto)
  finally show ?thesis .
qed

lemma sorted_take_drop_le:
  assumes "sorted (map f xs)" and "x \<in> set (take n xs)" and "y \<in> set (drop n xs)"
  shows "f x \<le> f y"
proof -
  have "sorted (map f (take n xs) @ map f (drop n xs))"
    using assms(1) by (simp flip: map_append)
  then show ?thesis
    using assms(2,3) by (auto simp: sorted_append)
qed

lemma cleanup_shape:
  assumes d: "distinct (map fst (requests t))"
    and z: "\<forall>x \<in> set (requests t). completed_at (snd x) \<noteq> Some 0"
  shows "cleanup_old_requests now t =
           t\<lparr>requests :=
               filter (\<lambda>x. x \<notin> set (take (nat (int (length (after_expiry now t)) - max_history t))
                                          (sort_key completed_key
                                             (filter is_done (after_expiry now t)))))
                      (after_expiry now t)\<rparr>"
proof -
  let ?ks = "after_expiry now t"
  let ?n = "nat (int (length ?ks) - max_history t)"
  let ?comp = "sort_key completed_key (filter is_done ?ks)"
  have dk: "distinct (map fst ?ks)"
    unfolding after_expiry_def using d by (rule distinct_map_filter)
  show ?thesis
  proof (cases "int (length ?ks) > max_history t")
    case True
    have sub: "set (take ?n ?comp) \<subseteq> set ?ks"
      using set_take_subset [of ?n ?comp] by auto
    have "fold AList.delete (map fst (take ?n ?comp)) ?ks
            = filter (\<lambda>x. x \<notin> set (take ?n ?comp)) ?ks"
      unfolding fold_delete_filter using dk sub by (rule filter_keys_entries)
    then show ?thesis
      using True by (simp add: cleanup_old_requests_def Let_def first_phase [OF d z])
  next
    case False
    then have "?n = 0" by simp
    then show ?thesis
      using False by (simp add: cleanup_old_requests_def Let_def first_phase [OF d z])
  qed
qed

text \<open>
  Claim C6. On a store with distinct request ids whose completion timestamps are
  clock readings other than \<open>0.0\<close>, one run of cleanup changes nothing but the store
  and leaves in it, in their order, exactly the requests that are neither
  completed/failed with a completed-at older than \<open>now - cleanup_interval\<close> nor
  pending/in flight with a submitted-at older than \<open>now - stale_timeout\<close> nor in a
  third set \<open>trimmed\<close>. That set consists of completed/failed requests left by the
  first two groups; it has as many members as the store then exceeds \<open>max_history\<close>
  (none when it does not; all completed/failed ones when there are fewer than the
  excess), and they are the oldest by their completed-at: no completed/failed request
  that stays has an earlier \<open>completed_at\<close> than one that is trimmed, where a request
  with no completed-at counts as completed at 0. When \<open>max_history\<close> is not negative
  and there are enough completed/failed requests, the store ends with exactly
  \<open>max_history\<close> entries.
\<close>

theorem cleanup_removes_exactly:
  assumes "distinct (map fst (requests t))"
    and "\<forall>x \<in> set (requests t). completed_at (snd x) \<noteq> Some 0"
  shows "\<exists>trimmed.
           cleanup_old_requests now t =
             t\<lparr>requests := filter (\<lambda>x. x \<notin> trimmed) (after_expiry now t)\<rparr>
           \<and> trimmed \<subseteq> {x \<in> set (after_expiry now t). is_done x}
           \<and> card trimmed = min (nat (int (length (after_expiry now t)) - max_history t))
                                (length (filter is_done (after_expiry now t)))
           \<and> (\<forall>x \<in> trimmed. \<forall>y \<in> {y \<in> set (after_expiry now t). is_done y} - trimmed.
                 (case completed_at (snd x) of None \<Rightarrow> 0 | Some c \<Rightarrow> c)
                   \<le> (case completed_at (snd y) of None \<Rightarrow> 0 | Some c \<Rightarrow> c))
           \<and> (0 \<le> max_history t \<and> max_history t < int (length (after_expiry now t))
                \<and> int (length (after_expiry now t)) - max_history t
                     \<le> int (length (filter is_done (after_expiry now t)))
                \<longrightarrow> int (length (requests (cleanup_old_requests now t))) = max_history t)"
proof -
  let ?ks = "after_expiry now t"
  let ?n = "nat (int (length ?ks) - max_history t)"
  let ?done = "filter is_done ?ks"
  let ?comp = "sort_key completed_key ?done"
  let ?V = "set (take ?n ?comp)"
  have dk: "distinct (map fst ?ks)"
    unfolding after_expiry_def using assms(1) by (rule distinct_map_filter)
  have dks: "distinct ?ks"
    using dk by (simp add: distinct_map)
  have dcomp: "distinct ?comp"
    using dks by simp
  have shape: "cleanup_old_requests now t = t\<lparr>requests := filter (\<lambda>x. x \<notin> ?V) ?ks\<rparr>"
    using assms by (rule cleanup_shape)
  have sub: "?V \<subseteq> {x \<in> set ?ks. is_done x}"
    using set_take_subset [of ?n ?comp] by auto
  have "card ?V = length (take ?n ?comp)"
    using dcomp by (simp add: distinct_card)
  then have card: "card ?V = min ?n (length ?done)"
    by (simp add: min.commute)
  have oldest: "\<forall>x \<in> ?V. \<forall>y \<in> {y \<in> set ?ks. is_done y} - ?V. completed_key x \<le> completed_key y"
  proof (intro ballI)
    fix x y assume x: "x \<in> ?V" and y: "y \<in> {y \<in> set ?ks. is_done y} - ?V"
    have "y \<in> set ?comp" using y by simp
    then have "y \<in> set (take ?n ?comp) \<union> set (drop ?n ?comp)"
      by (simp flip: set_append)
    then have yd: "y \<in> set (drop ?n ?comp)" using y by blast
    have "sorted (map completed_key ?comp)" by simp
    then show "completed_key x \<le> completed_key y"
      using x yd by (rule sorted_take_drop_le)
  qed
  have full: "0 \<le> max_history t \<and> max_history t < int (length ?ks) \<and> int (length ?ks) - max_history t \<le> int (length ?done)
                \<longrightarrow> int (length (requests (cleanup_old_requests now t))) = max_history t"
  proof
    assume a: "0 \<le> max_history t \<and> max_history t < int (length ?ks) \<and> int (length ?ks) - max_history t \<le> int (length ?done)"
    have "length (filter (\<lambda>x. x \<notin> ?V) ?ks) = card (set ?ks - ?V)"
    proof -
      have "distinct (filter (\<lambda>x. x \<notin> ?V) ?ks)" using dks by simp
      then have c: "card (set (filter (\<lambda>x. x \<notin> ?V) ?ks)) = length (filter (\<lambda>x. x \<notin> ?V) ?ks)"
        by (rule distinct_card)
      have s: "set (filter (\<lambda>x. x \<notin> ?V) ?ks) = set ?ks - ?V" by auto
      show ?thesis using c unfolding s by simp
    qed
    also have "\<dots> = card (set ?ks) - card ?V"
      using sub by (intro card_Diff_subset) auto
    also have "\<dots> = length ?ks - ?n"
    proof -
      have "?n \<le> length ?done" using a by linarith
      then have "card ?V = ?n" using card by linarith
      moreover have "card (set ?ks) = length ?ks" using dks by (rule distinct_card)
      ultimately show ?thesis by (simp only:)
    qed
    finally have len: "length (filter (\<lambda>x. x \<notin> ?V) ?ks) = length ?ks - ?n" .
    have le: "?n \<le> length ?ks" using a by linarith
    have "int (length ?ks - ?n) = int (length ?ks) - int ?n"
      using le by (rule of_nat_diff)
    moreover have "int ?n = int (length ?ks) - max_history t"
      using a by simp
    ultimately have "int (length (filter (\<lambda>x. x \<notin> ?V) ?ks)) = max_history t"
      unfolding len by linarith
    then show "int (length (requests (cleanup_old_requests now t))) = max_history t"
      by (simp add: shape)
  qed
  have oldest': "\<forall>x \<in> ?V. \<forall>y \<in> {y \<in> set ?ks. is_done y} - ?V.
                   (case completed_at (snd x) of None \<Rightarrow> 0 | Some c \<Rightarrow> c)
                     \<le> (case completed_at (snd y) of None \<Rightarrow> 0 | Some c \<Rightarrow> c)"
    using oldest unfolding completed_key_def .
  show ?thesis
    using shape sub card oldest' full by (intro exI [of _ ?V]) blast
qed

lemma cleanup_example_eval:
  "map (\<lambda>x. (fst x, status (snd x), submitted_at (snd x), completed_at (snd x)))
       (requests cleanup_example) =
     [(''a'', Completed, 90, Some 100), (''b'', Pending, 200, None),
      (''c'', Completed, 940, Some 960), (''d'', Failed, 945, Some 950),
      (''e'', InFlight, 990, None)]
   \<and> max_history cleanup_example = 2 \<and> cleanup_interval cleanup_example = 60
   \<and> stale_timeout cleanup_example = 600"
  by (simp add: cleanup_example_def run_ops_def new_tracker_def submit_def complete_def
        start_processing_def Let_def)

lemma cleanup_example_result:
  "map fst (after_expiry 1000 cleanup_example) = [''c'', ''d'', ''e'']
   \<and> map fst (requests (cleanup_old_requests 1000 cleanup_example)) = [''c'', ''e'']"
  by (simp add: cleanup_example_def run_ops_def new_tracker_def submit_def complete_def
        start_processing_def Let_def after_expiry_def old_completed_def stale_pending_def
        is_done_def cleanup_old_requests_def to_expire_def completed_key_def)

theorem cleanup_removes_exactly_witness:
  "distinct (map fst (requests cleanup_example))
   \<and> list_all (\<lambda>x. completed_at (snd x) \<noteq> Some 0) (requests cleanup_example)
   \<and> map fst (after_expiry 1000 cleanup_example) = [''c'', ''d'', ''e'']
   \<and> map fst (requests (cleanup_old_requests 1000 cleanup_example)) = [''c'', ''e'']
   \<and> (\<exists>trimmed.
         cleanup_old_requests 1000 cleanup_example =
           cleanup_example\<lparr>requests := filter (\<lambda>x. x \<notin> trimmed) (after_expiry 1000 cleanup_example)\<rparr>
         \<and> card trimmed = 1)"
proof -
  let ?sel = "\<lambda>x. (fst x, status (snd x), submitted_at (snd x), completed_at (snd x))"
  have keys: "map fst (requests cleanup_example) = map fst (map ?sel (requests cleanup_example))"
    by (simp add: comp_def)
  have d: "distinct (map fst (requests cleanup_example))"
    unfolding keys using cleanup_example_eval by simp
  have "list_all (\<lambda>y. snd (snd (snd y)) \<noteq> Some 0) (map ?sel (requests cleanup_example))"
    using cleanup_example_eval by simp
  then have z: "list_all (\<lambda>x. completed_at (snd x) \<noteq> Some 0) (requests cleanup_example)"
    by (simp add: list_all_iff)
  then have z': "\<forall>x \<in> set (requests cleanup_example). completed_at (snd x) \<noteq> Some 0"
    by (simp add: list_all_iff)
  have "length (map fst (after_expiry 1000 cleanup_example)) = 3"
    using cleanup_example_result by (simp only: list.size length_Cons)
  then have n: "length (after_expiry 1000 cleanup_example) = 3"
    by simp
  obtain trimmed where t:
    "cleanup_old_requests 1000 cleanup_example =
       cleanup_example\<lparr>requests := filter (\<lambda>x. x \<notin> trimmed) (after_expiry 1000 cleanup_example)\<rparr>"
    "card trimmed = min (nat (int (length (after_expiry 1000 cleanup_example))
                               - max_history cleanup_example))
                        (length (filter is_done (after_expiry 1000 cleanup_example)))"
    using cleanup_removes_exactly [OF d z', of 1000] by blast
  have nd: "length (filter is_done (after_expiry 1000 cleanup_example)) = 2"
    by (simp add: cleanup_example_def run_ops_def new_tracker_def submit_def complete_def
        start_processing_def Let_def after_expiry_def old_completed_def stale_pending_def
        is_done_def)
  have "card trimmed = 1"
    using t(2) n nd cleanup_example_eval by simp
  then show ?thesis
    using d z cleanup_example_result t(1) by blast
qed

subsection \<open>In-flight counters\<close>








lemma inflight_record_request [simp]:
  "inflight (record_request l ok b) = inflight b"
  by (simp add: record_request_def Let_def)

lemma inflight_backend_effect [simp]: "inflight (backend_effect rq b) = inflight b"
  by (simp add: backend_effect_def on_response_def on_timeout_def on_client_error_def Let_def
           split: upstream.split)


subsection \<open>The accounting invariant of pool histories\<close>




subsection \<open>What a proxied request leaves unchanged\<close>

lemma fetch_backend_models_frame:
  "pools (snd (fetch_backend_models ev force now px)) = pools px
   \<and> tracker (snd (fetch_backend_models ev force now px)) = tracker px
   \<and> proxy_strategy (snd (fetch_backend_models ev force now px)) = proxy_strategy px
   \<and> proxy_headers (snd (fetch_backend_models ev force now px)) = proxy_headers px
   \<and> total_requests (snd (fetch_backend_models ev force now px)) = total_requests px
   \<and> total_errors (snd (fetch_backend_models ev force now px)) = total_errors px"
  by (simp add: fetch_backend_models_def Let_def)

lemma pool_named_Some: "pool_named px name = Some pn \<Longrightarrow> pn = name \<and> map_of (pools px) pn \<noteq> None"
  by (auto simp: pool_named_def split: option.splits)

lemma pool_via_map_Some: "pool_via_map px m = Some pn \<Longrightarrow> map_of (pools px) pn \<noteq> None"
  by (auto simp: pool_via_map_def split: option.splits if_splits dest: pool_named_Some)

lemma partial_match_Some: "partial_match px ml = Some pn \<Longrightarrow> map_of (pools px) pn \<noteq> None"
proof -
  assume "partial_match px ml = Some pn"
  then have "pn \<in> set (map fst (pools px))"
    unfolding partial_match_def by (auto simp: find_Some_iff)
  then show ?thesis
    by (metis map_of_eq_None_iff set_map)
qed


lemma resolve_pool_found:
  assumes "fst (resolve_pool ev now model px) = Some pn"
  shows "map_of (pools px) pn \<noteq> None"
proof -
  let ?px' = "snd (fetch_backend_models ev True now px)"
  have p: "pools ?px' = pools px" by (simp add: fetch_backend_models_frame)
  have a: "\<And>m. pool_via_map ?px' m = Some pn \<Longrightarrow> map_of (pools px) pn \<noteq> None"
    using pool_via_map_Some [of ?px'] p by simp
  have b: "\<And>ml. partial_match ?px' ml = Some pn \<Longrightarrow> map_of (pools px) pn \<noteq> None"
    using partial_match_Some [of ?px'] p by simp
  show ?thesis
    using assms a b
    by (auto simp: resolve_pool_def Let_def split: option.splits if_splits
             dest: pool_named_Some pool_via_map_Some)
qed

lemma submitted_frame [simp]:
  "pools (submitted rq model pth px) = pools px"
  "model_to_pool (submitted rq model pth px) = model_to_pool px"
  "cached_models (submitted rq model pth px) = cached_models px"
  "proxy_strategy (submitted rq model pth px) = proxy_strategy px"
  "proxy_headers (submitted rq model pth px) = proxy_headers px"
  "total_errors (submitted rq model pth px) = total_errors px"
  "total_requests (submitted rq model pth px) = total_requests px + 1"
  by (simp_all add: submitted_def Let_def)

lemma pools_tracker_update [simp]: "pools (px\<lparr>tracker := t\<rparr>) = pools px"
  by simp



lemma map_backend_frame:
  "tracker (map_backend pn j f px) = tracker px
   \<and> total_errors (map_backend pn j f px) = total_errors px
   \<and> total_requests (map_backend pn j f px) = total_requests px"
  by (simp add: map_backend_def split: option.split)



lemma map_backend_id:
  assumes "distinct (map fst (pools px))"
  shows "pools (map_backend pn j (\<lambda>b. b) px) = pools px"
proof (cases "map_of (pools px) pn")
  case None
  then show ?thesis by (simp add: map_backend_def)
next
  case (Some pool)
  have "AList.update pn pool (pools px) = pools px"
    using Some by (rule update_triv)
  then show ?thesis
    using Some by (simp add: map_backend_def)
qed

lemma annotate_frames [simp]:
  "pools (annotate_summary rq px) = pools px"
  "pools (annotate_timing ev rq px) = pools px"
  by (simp_all add: annotate_summary_def annotate_timing_def Let_def split: inspect.split)





subsection \<open>Timeouts and the healthy flag\<close>

lemma url_record_request [simp]: "url (record_request l ok b) = url b"
  by (simp add: url_def record_request_def Let_def)

lemma url_finish_backend [simp]: "url (finish_backend rq b) = url b"
  by (simp add: url_def finish_backend_def release_def backend_effect_def on_response_def
        on_timeout_def on_client_error_def record_request_def Let_def split: upstream.split)

lemma url_refresh_backend_load [simp]: "url (refresh_backend_load ev now b) = url b"
  by (simp add: url_def refresh_backend_load_def split: option.split sum.split)

lemma url_check_single_backend [simp]: "url (check_single_backend ev now now' b) = url b"
proof -
  have "\<And>c. url (b\<lparr>healthy := c, last_check := now\<rparr>) = url b"
    by (simp add: url_def)
  then show ?thesis
    by (simp add: check_single_backend_def Let_def split: option.split)
qed

lemma url_backend_step [simp]: "url (backend_step e b) = url b"
  by (cases e) (simp_all add: url_def [of "b\<lparr>inflight := inflight b + 1\<rparr>"] url_def [of b])

lemma ct_record_request [simp]:
  "consecutive_timeouts (record_request l ok b) = consecutive_timeouts b"
  by (simp add: record_request_def Let_def)

lemma healthy_record_request [simp]: "healthy (record_request l ok b) = healthy b"
  by (simp add: record_request_def Let_def)

lemma ct_refresh_backend_load [simp]:
  "consecutive_timeouts (refresh_backend_load ev now b) = consecutive_timeouts b"
  by (simp add: refresh_backend_load_def split: option.split sum.split)

lemma healthy_refresh_backend_load [simp]:
  "healthy (refresh_backend_load ev now b) = healthy b"
  by (simp add: refresh_backend_load_def split: option.split sum.split)

lemma ct_check_single_backend [simp]:
  "consecutive_timeouts (check_single_backend ev now now' b) = consecutive_timeouts b"
  by (simp add: check_single_backend_def Let_def split: option.split)






lemma url_backend_run [simp]: "url (backend_run es b) = url b"
  by (induction es arbitrary: b) simp_all









subsection \<open>Where a request is routed\<close>

lemma map_backend_static [simp]:
  "proxy_strategy (map_backend pn j f px) = proxy_strategy px"
  "model_to_pool (map_backend pn j f px) = model_to_pool px"
  "proxy_headers (map_backend pn j f px) = proxy_headers px"
  by (simp_all add: map_backend_def split: option.split)

lemma annotate_static [simp]:
  "proxy_strategy (annotate_summary rq px) = proxy_strategy px"
  "model_to_pool (annotate_summary rq px) = model_to_pool px"
  "proxy_strategy (annotate_timing ev rq px) = proxy_strategy px"
  "model_to_pool (annotate_timing ev rq px) = model_to_pool px"
  by (simp_all add: annotate_summary_def annotate_timing_def Let_def split: inspect.split)


lemma fail_request_static [simp]:
  "proxy_strategy (fail_request rq px) = proxy_strategy px"
  "model_to_pool (fail_request rq px) = model_to_pool px"
  "pools (fail_request rq px) = pools px"
  by (simp_all add: fail_request_def)






lemma resolve_pool_cong:
  assumes p: "pools px = pools py" and m: "model_to_pool px = model_to_pool py"
  shows "fst (resolve_pool ev now model px) = fst (resolve_pool ev now model py)"
    and "model_to_pool (snd (resolve_pool ev now model px)) =
           model_to_pool (snd (resolve_pool ev now model py))"
proof -
  let ?px' = "snd (fetch_backend_models ev True now px)"
  let ?py' = "snd (fetch_backend_models ev True now py)"
  have n: "pool_named px = pool_named py"
    using p by (simp add: pool_named_def fun_eq_iff)
  have v: "pool_via_map px = pool_via_map py"
    unfolding pool_via_map_def m n by simp
  have p': "pools ?px' = pools ?py'"
    using p by (simp add: fetch_backend_models_frame)
  have m': "model_to_pool ?px' = model_to_pool ?py'"
    using p m by (simp add: fetch_backend_models_def Let_def)
  have n': "pool_named ?px' = pool_named ?py'"
    using p' by (simp add: pool_named_def fun_eq_iff)
  have v': "pool_via_map ?px' = pool_via_map ?py'"
    unfolding pool_via_map_def m' n' by simp
  have q': "partial_match ?px' = partial_match ?py'"
    using p' by (simp add: partial_match_def fun_eq_iff)
  show "fst (resolve_pool ev now model px) = fst (resolve_pool ev now model py)"
    unfolding resolve_pool_def Let_def n v v' q' by simp
  show "model_to_pool (snd (resolve_pool ev now model px)) =
           model_to_pool (snd (resolve_pool ev now model py))"
    unfolding resolve_pool_def Let_def n v v' q' using m m' by simp
qed


subsection \<open>A request as two events of the pool history\<close>



subsection \<open>Requests on a pool with one backend\<close>


lemma get_backend_single_unhealthy:
  assumes "backends pool = [b]" and "\<not> healthy b"
  shows "get_backend pool strat = Inr (None, pool)"
  using assms by (simp add: get_backend_def positions_def Let_def)



lemma timeout_request_facts [simp]:
  "timed_out (timeout_request rid t0)"
  "rq_body_model (timeout_request rid t0) = Some ''m''"
  by (simp_all add: timed_out_def timeout_request_def)



subsection \<open>In-flight accounting\<close>







subsection \<open>Three timeouts\<close>

lemma host_port_finish_backend [simp]:
  "host (finish_backend rq b) = host b" "port (finish_backend rq b) = port b"
  by (simp_all add: finish_backend_def release_def backend_effect_def on_response_def
        on_timeout_def on_client_error_def record_request_def Let_def split: upstream.split)






subsection \<open>Load refresh\<close>

lemma metric_value_errors:
  "metric_value pf l = Inl e \<Longrightarrow> e = ValueError \<or> e = IndexError \<or> e = OverflowError"
proof -
  have "\<And>x. py_int x = Inl e \<Longrightarrow> e = ValueError \<or> e = OverflowError"
    subgoal for x by (cases x) auto
    done
  then show "metric_value pf l = Inl e \<Longrightarrow> e = ValueError \<or> e = IndexError \<or> e = OverflowError"
    by (auto simp: metric_value_def split: list.splits option.splits)
qed

lemma parse_lines_readings:
  "parse_lines pf ls m =
     (if list_ex (overflows pf) ls then Inl OverflowError
      else Inr (upd_last (readings pf running_line ls) (fst m),
                upd_last (readings pf waiting_line ls) (snd m)))"
proof (induction ls arbitrary: m)
  case Nil
  then show ?case by (simp add: readings_def upd_last_def)
next
  case (Cons l ls)
  show ?case
  proof (cases "running_line l")
    case True
    then have nw: "\<not> waiting_line l" by (simp add: running_line_def waiting_line_def)
    show ?thesis
    proof (cases "metric_value pf l")
      case (Inr v)
      then show ?thesis
        using True nw Cons.IH [of "(Some v, snd m)"]
        by (simp add: running_line_def [symmetric] overflows_def readings_def upd_last_def)
    next
      case (Inl e)
      then show ?thesis
        using True nw Cons.IH [of m] metric_value_errors [OF Inl]
        by (auto simp: running_line_def [symmetric] overflows_def readings_def)
    qed
  next
    case False
    note nr = False
    show ?thesis
    proof (cases "waiting_line l")
      case True
      show ?thesis
      proof (cases "metric_value pf l")
        case (Inr v)
        then show ?thesis
          using True nr Cons.IH [of "(fst m, Some v)"]
          by (simp add: running_line_def waiting_line_def overflows_def readings_def upd_last_def)
      next
        case (Inl e)
        then show ?thesis
          using True nr Cons.IH [of m] metric_value_errors [OF Inl]
          by (auto simp: running_line_def waiting_line_def overflows_def readings_def)
      qed
    next
      case False
      then show ?thesis
        using nr Cons.IH [of m]
        by (simp add: running_line_def waiting_line_def overflows_def readings_def)
    qed
  qed
qed

lemma parse_vllm_metrics_readings:
  "parse_vllm_metrics pf doc =
     (if list_ex (overflows pf) (split_on (CHR 0x0A) doc) then Inl OverflowError
      else Inr (upd_last (readings pf running_line (split_on (CHR 0x0A) doc)) None,
                upd_last (readings pf waiting_line (split_on (CHR 0x0A) doc)) None))"
  by (simp add: parse_vllm_metrics_def parse_lines_readings)

lemma get_or_0_upd_last: "get_or_0 (upd_last vs None) = last_or_0 vs"
  by (simp add: get_or_0_def upd_last_def last_or_0_def)

lemma refresh_on_200:
  assumes "\<not> now - load_last_updated b < LOAD_CACHE_TTL"
    and "metrics_reply ev (url b) = Some (200, doc)"
  shows "refresh_backend_load ev now b =
           (if list_ex (overflows (py_float ev)) (split_on (CHR 0x0A) doc) then b
            else b\<lparr>gpu_load :=
                     last_or_0 (readings (py_float ev) running_line (split_on (CHR 0x0A) doc))
                     + last_or_0 (readings (py_float ev) waiting_line (split_on (CHR 0x0A) doc)),
                   load_last_updated := now\<rparr>)"
  using assms
  by (simp add: refresh_backend_load_def parse_vllm_metrics_readings get_or_0_upd_last)

lemma metric_value_examples:
  "metric_value float_examples ''vllm:num_requests_running{model_name=m} 3.7'' = Inr 3"
  "metric_value float_examples ''vllm:num_requests_waiting{model_name=m} 2.0'' = Inr 2"
  "metric_value float_examples ''vllm:num_requests_waiting 2.0'' = Inr 2"
  "metric_value float_examples ''vllm:num_requests_running inf'' = Inl OverflowError"
  "metric_value float_examples ''vllm:num_requests_running busy'' = Inl ValueError"
proof -
  have f37: "\<lfloor>3.7 :: real\<rfloor> = 3" by linarith
  show "metric_value float_examples ''vllm:num_requests_running{model_name=m} 3.7'' = Inr 3"
    by (simp add: metric_value_def py_split_def is_space_def float_examples_def f37)
  show "metric_value float_examples ''vllm:num_requests_waiting{model_name=m} 2.0'' = Inr 2"
    by (simp add: metric_value_def py_split_def is_space_def float_examples_def)
  show "metric_value float_examples ''vllm:num_requests_waiting 2.0'' = Inr 2"
    by (simp add: metric_value_def py_split_def is_space_def float_examples_def)
  show "metric_value float_examples ''vllm:num_requests_running inf'' = Inl OverflowError"
    by (simp add: metric_value_def py_split_def is_space_def float_examples_def)
  show "metric_value float_examples ''vllm:num_requests_running busy'' = Inl ValueError"
    by (simp add: metric_value_def py_split_def is_space_def float_examples_def)
qed

lemma metrics_lines:
  "split_on (CHR 0x0A) good_metrics =
     [''# TYPE vllm:num_requests_running gauge'',
      ''vllm:num_requests_running{model_name=m} 3.7'',
      ''vllm:num_requests_waiting{model_name=m} 2.0'']"
  "split_on (CHR 0x0A) overflow_metrics =
     [''vllm:num_requests_running inf'', ''vllm:num_requests_waiting 2.0'']"
  "split_on (CHR 0x0A) broken_metrics = [''vllm:num_requests_running busy'']"
  "split_on (CHR 0x0A) '''' = ['''']"
  by (simp_all add: split_on_def good_metrics_def overflow_metrics_def broken_metrics_def)

lemma metrics_readings:
  "readings float_examples running_line (split_on (CHR 0x0A) good_metrics) = [3]"
  "readings float_examples waiting_line (split_on (CHR 0x0A) good_metrics) = [2]"
  "\<not> list_ex (overflows float_examples) (split_on (CHR 0x0A) good_metrics)"
  "list_ex (overflows float_examples) (split_on (CHR 0x0A) overflow_metrics)"
  "readings float_examples running_line (split_on (CHR 0x0A) broken_metrics) = []"
  "readings float_examples waiting_line (split_on (CHR 0x0A) broken_metrics) = []"
  "\<not> list_ex (overflows float_examples) (split_on (CHR 0x0A) broken_metrics)"
  by (simp_all add: metrics_lines readings_def overflows_def running_line_def waiting_line_def
        metric_value_examples)

lemma loaded_backend_facts:
  "gpu_load loaded_backend = 9" "load_last_updated loaded_backend = 0"
  by (simp_all add: loaded_backend_def new_backend_def)

lemma metrics_env_facts [simp]:
  "py_float (metrics_env code doc) = float_examples"
  "metrics_reply (metrics_env code doc) u = Some (code, doc)"
  by (simp_all add: metrics_env_def)

text \<open>
  Claim C9 fails for the parse failures it names. A backend with \<open>gpu_load = 9\<close>, last
  refreshed at 0, is refreshed at clock reading 10 with a 200 answer whose running value
  is no number and that has no line for the waiting requests: its \<open>gpu_load\<close> becomes 0
  and its last-load timestamp 10. The same happens with an empty text.
\<close>

theorem load_refresh_counterexample:
  "parse_vllm_metrics float_examples broken_metrics = Inr (None, None)
   \<and> gpu_load loaded_backend = 9 \<and> load_last_updated loaded_backend = 0
   \<and> gpu_load (refresh_backend_load (metrics_env 200 broken_metrics) 10 loaded_backend) = 0
   \<and> load_last_updated (refresh_backend_load (metrics_env 200 broken_metrics) 10 loaded_backend)
       = 10
   \<and> parse_vllm_metrics float_examples '''' = Inr (None, None)
   \<and> gpu_load (refresh_backend_load (metrics_env 200 '''') 10 loaded_backend) = 0
   \<and> load_last_updated (refresh_backend_load (metrics_env 200 '''') 10 loaded_backend) = 10"
proof -
  have p1: "parse_vllm_metrics float_examples broken_metrics = Inr (None, None)"
    by (simp add: parse_vllm_metrics_readings metrics_readings upd_last_def)
  have p2: "parse_vllm_metrics float_examples '''' = Inr (None, None)"
    by (simp add: parse_vllm_metrics_def split_on_def)
  have stale: "\<not> 10 - load_last_updated loaded_backend < LOAD_CACHE_TTL"
    by (simp add: loaded_backend_facts LOAD_CACHE_TTL_def)
  have r1: "refresh_backend_load (metrics_env 200 broken_metrics) 10 loaded_backend =
              loaded_backend\<lparr>gpu_load := 0, load_last_updated := 10\<rparr>"
    using stale by (simp add: refresh_backend_load_def p1 get_or_0_def)
  have r2: "refresh_backend_load (metrics_env 200 '''') 10 loaded_backend =
              loaded_backend\<lparr>gpu_load := 0, load_last_updated := 10\<rparr>"
    using stale by (simp add: refresh_backend_load_def p2 get_or_0_def)
  show ?thesis
    by (simp add: p1 p2 r1 r2 loaded_backend_facts)
qed

text \<open>
  Claim C9 as amended. A load refresh leaves the backend as it is when its load was
  refreshed less than \<open>LOAD_CACHE_TTL\<close> ago, when the \<open>/metrics\<close> request raises, and
  when the answer has a status other than 200. On a 200 answer it sets \<open>gpu_load\<close> to
  the last running reading plus the last waiting reading of the text, a reading that
  is missing, because there is no such line or its last word is no number, counting as
  0, and sets the last-load timestamp to the clock reading taken at the start; nothing
  else is written. Only when one of these lines has an infinite value, so that \<open>int\<close>
  raises an \<open>OverflowError\<close>, does a 200 answer leave the backend as it is.
\<close>

theorem load_refresh_sets_load:
  "(now - load_last_updated b < LOAD_CACHE_TTL \<longrightarrow> refresh_backend_load ev now b = b)
   \<and> (\<not> now - load_last_updated b < LOAD_CACHE_TTL \<and> metrics_reply ev (url b) = None \<longrightarrow>
         refresh_backend_load ev now b = b)
   \<and> (\<not> now - load_last_updated b < LOAD_CACHE_TTL
        \<and> metrics_reply ev (url b) = Some (code, doc) \<and> code \<noteq> 200 \<longrightarrow>
         refresh_backend_load ev now b = b)
   \<and> (\<not> now - load_last_updated b < LOAD_CACHE_TTL
        \<and> metrics_reply ev (url b) = Some (200, doc) \<longrightarrow>
         refresh_backend_load ev now b =
           (if list_ex (overflows (py_float ev)) (split_on (CHR 0x0A) doc) then b
            else b\<lparr>gpu_load :=
                     last_or_0 (readings (py_float ev) running_line (split_on (CHR 0x0A) doc))
                     + last_or_0 (readings (py_float ev) waiting_line (split_on (CHR 0x0A) doc)),
                   load_last_updated := now\<rparr>))"
proof -
  have a: "now - load_last_updated b < LOAD_CACHE_TTL \<longrightarrow> refresh_backend_load ev now b = b"
    by (simp add: refresh_backend_load_def)
  have b: "\<not> now - load_last_updated b < LOAD_CACHE_TTL \<and> metrics_reply ev (url b) = None \<longrightarrow>
         refresh_backend_load ev now b = b"
    by (simp add: refresh_backend_load_def)
  have c: "\<not> now - load_last_updated b < LOAD_CACHE_TTL
        \<and> metrics_reply ev (url b) = Some (code, doc) \<and> code \<noteq> 200 \<longrightarrow>
         refresh_backend_load ev now b = b"
    by (simp add: refresh_backend_load_def)
  have d: "\<not> now - load_last_updated b < LOAD_CACHE_TTL
        \<and> metrics_reply ev (url b) = Some (200, doc) \<longrightarrow>
         refresh_backend_load ev now b =
           (if list_ex (overflows (py_float ev)) (split_on (CHR 0x0A) doc) then b
            else b\<lparr>gpu_load :=
                     last_or_0 (readings (py_float ev) running_line (split_on (CHR 0x0A) doc))
                     + last_or_0 (readings (py_float ev) waiting_line (split_on (CHR 0x0A) doc)),
                   load_last_updated := now\<rparr>)"
    using refresh_on_200 [of now b ev doc] by blast
  show ?thesis using a b c d by (intro conjI)
qed

theorem load_refresh_sets_load_witness:
  "1 / 2 - load_last_updated loaded_backend < LOAD_CACHE_TTL
   \<and> refresh_backend_load (metrics_env 200 good_metrics) (1 / 2) loaded_backend = loaded_backend
   \<and> \<not> 10 - load_last_updated loaded_backend < LOAD_CACHE_TTL
   \<and> metrics_reply quiet_env (url loaded_backend) = None
   \<and> refresh_backend_load quiet_env 10 loaded_backend = loaded_backend
   \<and> metrics_reply (metrics_env 503 good_metrics) (url loaded_backend) = Some (503, good_metrics)
   \<and> refresh_backend_load (metrics_env 503 good_metrics) 10 loaded_backend = loaded_backend
   \<and> metrics_reply (metrics_env 200 good_metrics) (url loaded_backend) = Some (200, good_metrics)
   \<and> readings float_examples running_line (split_on (CHR 0x0A) good_metrics) = [3]
   \<and> readings float_examples waiting_line (split_on (CHR 0x0A) good_metrics) = [2]
   \<and> refresh_backend_load (metrics_env 200 good_metrics) 10 loaded_backend =
       loaded_backend\<lparr>gpu_load := 5, load_last_updated := 10\<rparr>
   \<and> list_ex (overflows float_examples) (split_on (CHR 0x0A) overflow_metrics)
   \<and> refresh_backend_load (metrics_env 200 overflow_metrics) 10 loaded_backend = loaded_backend"
proof -
  have fresh: "1 / 2 - load_last_updated loaded_backend < LOAD_CACHE_TTL"
    by (simp add: loaded_backend_facts LOAD_CACHE_TTL_def)
  have stale: "\<not> 10 - load_last_updated loaded_backend < LOAD_CACHE_TTL"
    by (simp add: loaded_backend_facts LOAD_CACHE_TTL_def)
  have q: "metrics_reply quiet_env (url loaded_backend) = None"
    by (simp add: quiet_env_def)
  note i1 = load_refresh_sets_load [where now = "1 / 2" and b = loaded_backend
              and ev = "metrics_env 200 good_metrics"]
  note i2 = load_refresh_sets_load [where now = 10 and b = loaded_backend and ev = quiet_env]
  note i3 = load_refresh_sets_load [where now = 10 and b = loaded_backend
              and ev = "metrics_env 503 good_metrics" and code = 503 and doc = good_metrics]
  note i4 = load_refresh_sets_load [where now = 10 and b = loaded_backend
              and ev = "metrics_env 200 good_metrics" and doc = good_metrics]
  note i5 = load_refresh_sets_load [where now = 10 and b = loaded_backend
              and ev = "metrics_env 200 overflow_metrics" and doc = overflow_metrics]
  have c1: "refresh_backend_load (metrics_env 200 good_metrics) (1 / 2) loaded_backend
              = loaded_backend"
    using i1 [THEN conjunct1] fresh by simp
  have c2: "refresh_backend_load quiet_env 10 loaded_backend = loaded_backend"
    using i2 [THEN conjunct2, THEN conjunct1] stale q by simp
  have c3: "refresh_backend_load (metrics_env 503 good_metrics) 10 loaded_backend
              = loaded_backend"
    using i3 [THEN conjunct2, THEN conjunct2, THEN conjunct1] stale by simp
  have c4: "refresh_backend_load (metrics_env 200 good_metrics) 10 loaded_backend =
              loaded_backend\<lparr>gpu_load := 5, load_last_updated := 10\<rparr>"
    using i4 [THEN conjunct2, THEN conjunct2, THEN conjunct2] stale
    by (simp add: metrics_readings last_or_0_def)
  have c5: "refresh_backend_load (metrics_env 200 overflow_metrics) 10 loaded_backend
              = loaded_backend"
    using i5 [THEN conjunct2, THEN conjunct2, THEN conjunct2] stale
    by (simp add: metrics_readings)
  show ?thesis
    using fresh stale q c1 c2 c3 c4 c5 by (simp add: metrics_readings)
qed

end
